theory Spec2Isabelle
  imports
    Complex_Main
    "HOL-Library.List_Lexorder"
    "HOL-Library.Char_ord"
    "HOL-Library.Sublist"
    "HOL-Library.Multiset"
begin

section \<open>JSON values as the viewer receives them\<close>

text \<open>
  The value returned by \<^verbatim>\<open>JSON.parse\<close>. A number is the mathematical value of the
  double (a rational; \<^verbatim>\<open>NaN\<close> and the infinities are not JSON numbers of this model).
  A string is its sequence of code units, read here as \<^typ>\<open>char\<close>s, and is compared
  code unit by code unit, as the default \<^verbatim>\<open>Array.prototype.sort\<close> does. An object is the
  list of its own properties in the order \<^verbatim>\<open>Object.keys\<close> enumerates them; a key occurs
  once.
\<close>

datatype json =
    JNull
  | JBool bool
  | JNum rat
  | JStr string
  | JArr "json list"
  | JObj "(string \<times> json) list"

fun isArray :: "json \<Rightarrow> bool" where
  "isArray (JArr xs) = True"
| "isArray v = False"

fun typeof :: "json \<Rightarrow> string" where
  "typeof JNull = ''object''"
| "typeof (JBool b) = ''boolean''"
| "typeof (JNum n) = ''number''"
| "typeof (JStr s) = ''string''"
| "typeof (JArr xs) = ''object''"
| "typeof (JObj kvs) = ''object''"

text \<open>The test \<^verbatim>\<open>typeof v === 'object' && v !== null && !Array.isArray(v)\<close>.\<close>

definition isPlainObject :: "json \<Rightarrow> bool" where
  "isPlainObject v = (typeof v = ''object'' \<and> v \<noteq> JNull \<and> \<not> isArray v)"

subsection \<open>Integers written in a radix\<close>

text \<open>
  \<^verbatim>\<open>Number.prototype.toString(radix)\<close> on a non-negative integer: its digits, most
  significant first, lower-case letters above nine.
\<close>

definition digitChar :: "nat \<Rightarrow> char" where
  "digitChar d = ''0123456789abcdefghijklmnopqrstuvwxyz'' ! d"

function digitsOf :: "int \<Rightarrow> int \<Rightarrow> string" where
  "digitsOf b n =
     (if b < 2 \<or> n < b then [digitChar (nat n)]
      else digitsOf b (n div b) @ [digitChar (nat (n mod b))])"
  by pat_completeness auto
termination
  by (relation "measure (\<lambda>(b, n). nat n)") (auto intro: int_div_less_self)

declare digitsOf.simps [simp del]

subsection \<open>Own keys\<close>

text \<open>
  \<^verbatim>\<open>Object.keys(v)\<close>: the keys of an object, the indices of an array or of a string,
  nothing for a number or a boolean; on \<^verbatim>\<open>null\<close> it throws a TypeError, which is
  \<^const>\<open>None\<close> here.
\<close>

fun Object_keys :: "json \<Rightarrow> string list option" where
  "Object_keys JNull = None"
| "Object_keys (JBool b) = Some []"
| "Object_keys (JNum n) = Some []"
| "Object_keys (JStr s) = Some (map (\<lambda>i. digitsOf 10 (int i)) [0..<length s])"
| "Object_keys (JArr xs) = Some (map (\<lambda>i. digitsOf 10 (int i)) [0..<length xs])"
| "Object_keys (JObj kvs) = Some (map fst kvs)"

section \<open>Header derivation\<close>

text \<open>
  A \<^verbatim>\<open>Set\<close> of strings keeps its members in the order of their first insertion;
  \<^verbatim>\<open>Array.from\<close> reads them in that order.
\<close>

definition Set_add :: "string list \<Rightarrow> string \<Rightarrow> string list" where
  "Set_add s k = (if k \<in> set s then s else s @ [k])"

text \<open>The body of the \<^verbatim>\<open>data.forEach\<close> of \<^verbatim>\<open>extractHeadersFromObjects\<close>.\<close>

definition addRowKeys :: "string list \<Rightarrow> json \<Rightarrow> string list" where
  "addRowKeys headerSet row =
     (if typeof row = ''object'' \<and> row \<noteq> JNull then
        (case Object_keys row of
           Some ks \<Rightarrow> foldl Set_add headerSet ks
         | None \<Rightarrow> headerSet)
      else headerSet)"

definition extractHeadersFromObjects :: "json list \<Rightarrow> string list" where
  "extractHeadersFromObjects data = sort (foldl addRowKeys [] data)"

text \<open>The keys a row contributes to the header set.\<close>

definition rowKeys :: "json \<Rightarrow> string set" where
  "rowKeys row =
     (if typeof row = ''object'' then
        (case Object_keys row of Some ks \<Rightarrow> set ks | None \<Rightarrow> {})
      else {})"

section \<open>Strings\<close>

text \<open>\<^verbatim>\<open>String.prototype.includes\<close>: the needle occurs as a contiguous run.\<close>

definition includesStr :: "string \<Rightarrow> string \<Rightarrow> bool" where
  "includesStr hay needle = sublist needle hay"

text \<open>
  \<^verbatim>\<open>String.prototype.trim\<close> removes white space and line terminators at both ends;
  among the code units below 256 these are the seven listed.
\<close>

definition isWhiteSpace :: "char \<Rightarrow> bool" where
  "isWhiteSpace c =
     (c \<in> set [CHR 0x09, CHR 0x0A, CHR 0x0B, CHR 0x0C, CHR 0x0D, CHR 0x20, CHR 0xA0])"

definition trim :: "string \<Rightarrow> string" where
  "trim s = rev (dropWhile isWhiteSpace (rev (dropWhile isWhiteSpace s)))"

text \<open>
  \<^verbatim>\<open>String.prototype.toLowerCase\<close> on code units below 256: the ASCII capitals and
  the Latin-1 capitals (0xC0 to 0xDE without the multiplication sign 0xD7) move up by 32.
\<close>

definition lowerChar :: "char \<Rightarrow> char" where
  "lowerChar c =
     (let n = (of_char c :: nat) in
      if (65 \<le> n \<and> n \<le> 90) \<or> (192 \<le> n \<and> n \<le> 222 \<and> n \<noteq> 215)
      then char_of (n + 32) else c)"

definition toLowerCase :: "string \<Rightarrow> string" where
  "toLowerCase s = map lowerChar s"

text \<open>
  \<^verbatim>\<open>String.prototype.toUpperCase\<close>, used by the source only on the digits of a
  number written in radix 16: the ASCII small letters move down by 32.
\<close>

definition upperChar :: "char \<Rightarrow> char" where
  "upperChar c =
     (let n = (of_char c :: nat) in
      if 97 \<le> n \<and> n \<le> 122 then char_of (n - 32) else c)"

definition toUpperCase :: "string \<Rightarrow> string" where
  "toUpperCase s = map upperChar s"

text \<open>\<^verbatim>\<open>s.padStart(n, '0')\<close>.\<close>

definition padStart0 :: "nat \<Rightarrow> string \<Rightarrow> string" where
  "padStart0 n s = replicate (n - length s) CHR ''0'' @ s"

text \<open>\<^verbatim>\<open>Array.prototype.join\<close> of strings.\<close>

fun join :: "string \<Rightarrow> string list \<Rightarrow> string" where
  "join sep [] = []"
| "join sep [s] = s"
| "join sep (s # t # ts) = s @ sep @ join sep (t # ts)"

section \<open>The runtime\<close>

text \<open>
  What the JavaScript engine contributes and the repository does not define:
  \<^item> the JSON parser (\<^const>\<open>Inl\<close> carries the message of the SyntaxError it throws);
  \<^item> the decimal and radix notation of a number that is not an integer below \<open>2\<^sup>5\<^sup>3\<close>;
  \<^item> the numeric value of a string (\<^const>\<open>None\<close> is \<^verbatim>\<open>NaN\<close>);
  \<^item> locale-aware collation;
  \<^item> the \<^verbatim>\<open>ko-KR\<close> rendering of a time value in milliseconds;
  \<^item> the message of the TypeError thrown when a property of \<^verbatim>\<open>null\<close> is read or
    \<^verbatim>\<open>null\<close> is converted to an object, given the name of the property or operation;
  \<^item> what a property lookup finds on the prototype chain of a value that has no own
    property of the name: the string of the inherited value, or \<^const>\<open>None\<close>;
  \<^item> \<^verbatim>\<open>Array.prototype.sort\<close> with a comparator.
\<close>

record host =
  JSON_parse :: "string \<Rightarrow> string + json"
  numberToString :: "rat \<Rightarrow> string"
  numberToStringRadix :: "nat \<Rightarrow> rat \<Rightarrow> string"
  stringToNumber :: "string \<Rightarrow> rat option"
  localeCompare :: "string \<Rightarrow> string \<Rightarrow> int"
  toLocaleString :: "int \<Rightarrow> string"
  nullPropertyError :: "string \<Rightarrow> string"
  inheritedString :: "json \<Rightarrow> string \<Rightarrow> string option"
  engineSort :: "(json \<Rightarrow> json \<Rightarrow> rat) \<Rightarrow> json list \<Rightarrow> json list"

text \<open>\<^verbatim>\<open>Number.isInteger\<close>.\<close>

definition isInteger :: "rat \<Rightarrow> bool" where
  "isInteger n = (of_int \<lfloor>n\<rfloor> = n)"

text \<open>
  \<^verbatim>\<open>n.toString(radix)\<close>: an integer of magnitude below \<open>2\<^sup>5\<^sup>3\<close> is its sign and
  all its digits. From \<open>2\<^sup>5\<^sup>3\<close> on the runtime prints the shortest digits that read back
  as the same double, and a fraction has the runtime's own notation: both are the
  runtime's.
\<close>

definition numberToRadix :: "host \<Rightarrow> nat \<Rightarrow> rat \<Rightarrow> string" where
  "numberToRadix h radix n =
     (if isInteger n \<and> \<bar>n\<bar> < 2 ^ 53 then
        (if n < 0 then ''-'' else []) @ digitsOf (int radix) \<bar>\<lfloor>n\<rfloor>\<bar>
      else if radix = 10 then numberToString h n
      else numberToStringRadix h radix n)"

text \<open>
  \<^verbatim>\<open>String(v)\<close> on a JSON value: an array joins the strings of its elements with
  commas, \<^verbatim>\<open>null\<close> elements giving the empty string.
\<close>

fun toStr :: "host \<Rightarrow> json \<Rightarrow> string" where
  "toStr h JNull = ''null''"
| "toStr h (JBool b) = (if b then ''true'' else ''false'')"
| "toStr h (JNum n) = numberToRadix h 10 n"
| "toStr h (JStr s) = s"
| "toStr h (JArr xs) = join '','' (map (\<lambda>x. if x = JNull then [] else toStr h x) xs)"
| "toStr h (JObj kvs) = ''[object Object]''"

text \<open>\<^verbatim>\<open>String(v)\<close> on a cell value, which may be absent (\<^verbatim>\<open>undefined\<close>).\<close>

fun String_of :: "host \<Rightarrow> json option \<Rightarrow> string" where
  "String_of h None = ''undefined''"
| "String_of h (Some v) = toStr h v"

text \<open>\<^verbatim>\<open>ToNumber\<close>, as \<^verbatim>\<open>Math.max\<close> applies it to each argument.\<close>

fun toNumber :: "host \<Rightarrow> json option \<Rightarrow> rat option" where
  "toNumber h None = None"
| "toNumber h (Some JNull) = Some 0"
| "toNumber h (Some (JBool b)) = Some (if b then 1 else 0)"
| "toNumber h (Some (JNum n)) = Some n"
| "toNumber h (Some (JStr s)) = stringToNumber h s"
| "toNumber h (Some (JArr xs)) = stringToNumber h (toStr h (JArr xs))"
| "toNumber h (Some (JObj kvs)) = None"

text \<open>\<^verbatim>\<open>Math.max\<close> of at least one number: \<^verbatim>\<open>NaN\<close> as soon as one argument is.\<close>

fun Math_max :: "rat option \<Rightarrow> rat option list \<Rightarrow> rat option" where
  "Math_max m [] = m"
| "Math_max m (x # xs) =
     Math_max (case m of None \<Rightarrow> None
               | Some a \<Rightarrow> (case x of None \<Rightarrow> None | Some b \<Rightarrow> Some (max a b))) xs"

section \<open>Structure inference\<close>

text \<open>\<^verbatim>\<open>JSONParser.getDataType\<close>.\<close>

definition getDataType :: "json \<Rightarrow> string" where
  "getDataType data =
     (if isArray data then ''array''
      else if data = JNull then ''null''
      else if typeof data = ''object'' then ''object''
      else typeof data)"

text \<open>
  \<^verbatim>\<open>arr.length\<close>: \<^const>\<open>None\<close> is the TypeError on \<^verbatim>\<open>null\<close>, \<open>Some None\<close> is
  \<^verbatim>\<open>undefined\<close>; an object answers with its own property of that name.
\<close>

fun lengthProp :: "json \<Rightarrow> json option option" where
  "lengthProp JNull = None"
| "lengthProp (JBool b) = Some None"
| "lengthProp (JNum n) = Some None"
| "lengthProp (JStr s) = Some (Some (JNum (of_nat (length s))))"
| "lengthProp (JArr xs) = Some (Some (JNum (of_nat (length xs))))"
| "lengthProp (JObj kvs) = Some (map_of kvs ''length'')"

text \<open>\<^verbatim>\<open>arr[i]\<close> for an index \<open>i\<close>, on a value whose \<^verbatim>\<open>length\<close> could be read.\<close>

fun getIndex :: "json \<Rightarrow> nat \<Rightarrow> json option" where
  "getIndex (JArr xs) i = (if i < length xs then Some (xs ! i) else None)"
| "getIndex (JStr s) i = (if i < length s then Some (JStr [s ! i]) else None)"
| "getIndex (JObj kvs) i = map_of kvs (digitsOf 10 (int i))"
| "getIndex v i = None"

text \<open>
  The rows of an array of arrays. The loop \<^verbatim>\<open>for (i = 0; i < maxLength; i++)\<close> runs
  for the naturals below \<open>maxLength\<close>: none when it is \<^verbatim>\<open>NaN\<close>.
\<close>

definition loopBound :: "rat option \<Rightarrow> nat" where
  "loopBound m = (case m of None \<Rightarrow> 0 | Some r \<Rightarrow> nat \<lceil>r\<rceil>)"

definition arrayRow :: "nat \<Rightarrow> nat \<Rightarrow> json \<Rightarrow> json" where
  "arrayRow maxLength rowIndex arr =
     JObj ((''_rowIndex'', JNum (of_nat rowIndex)) #
           map (\<lambda>i. (''column_'' @ digitsOf 10 (int i),
                      (case getIndex arr i of Some v \<Rightarrow> v | None \<Rightarrow> JNull)))
               [0..<maxLength])"

definition arrayOfArraysRows :: "host \<Rightarrow> json list \<Rightarrow> string + json list" where
  "arrayOfArraysRows h data =
     (if list_ex (\<lambda>arr. lengthProp arr = None) data then Inl (nullPropertyError h ''length'')
      else
        (case map (\<lambda>arr. toNumber h (the (lengthProp arr))) data of
           [] \<Rightarrow> Inr []
         | l # ls \<Rightarrow>
             Inr (map (\<lambda>(rowIndex, arr). arrayRow (loopBound (Math_max l ls)) rowIndex arr)
                      (zip [0..<length data] data))))"

text \<open>The rows of an array of primitive values.\<close>

definition primitiveRows :: "json list \<Rightarrow> json list" where
  "primitiveRows data =
     map (\<lambda>(index, item). JObj [(''index'', JNum (of_nat index)), (''value'', item)])
         (zip [0..<length data] data)"

text \<open>
  Assignment \<^verbatim>\<open>obj[k] = v\<close> on an object built by the source: an existing key keeps
  its place; a new key that is an array index (a canonical decimal below \<open>2\<^sup>3\<^sup>2 - 1\<close>) is
  enumerated among the indices in ascending order, before every other key; any other new
  key comes last.
\<close>

definition isDigit :: "char \<Rightarrow> bool" where
  "isDigit c = (48 \<le> (of_char c :: nat) \<and> (of_char c :: nat) \<le> 57)"

definition intOfDigits :: "string \<Rightarrow> int" where
  "intOfDigits s = foldl (\<lambda>n c. 10 * n + ((of_char c :: int) - 48)) 0 s"

definition isArrayIndex :: "string \<Rightarrow> bool" where
  "isArrayIndex k =
     (k \<noteq> [] \<and> list_all isDigit k \<and> (k = ''0'' \<or> hd k \<noteq> CHR ''0'')
      \<and> intOfDigits k < 2 ^ 32 - 1)"

fun insertIndexKey :: "string \<Rightarrow> json \<Rightarrow> (string \<times> json) list \<Rightarrow> (string \<times> json) list" where
  "insertIndexKey k v [] = [(k, v)]"
| "insertIndexKey k v ((k', v') # rest) =
     (if isArrayIndex k' \<and> intOfDigits k' < intOfDigits k
      then (k', v') # insertIndexKey k v rest
      else (k, v) # (k', v') # rest)"

fun replaceValue :: "string \<Rightarrow> json \<Rightarrow> (string \<times> json) list \<Rightarrow> (string \<times> json) list" where
  "replaceValue k v [] = []"
| "replaceValue k v ((k', v') # rest) =
     (if k' = k then (k, v) # rest else (k', v') # replaceValue k v rest)"

text \<open>
  The object \<^verbatim>\<open>flattened\<close>: its own properties, and whether its prototype has become
  \<^verbatim>\<open>null\<close>. It starts as \<^verbatim>\<open>{}\<close>, whose prototype carries the accessor
  \<^verbatim>\<open>__proto__\<close>: assigning to that key creates no own property, it replaces the
  prototype when the value is \<^verbatim>\<open>null\<close> or an object and does nothing for any other
  value. Once the prototype is \<^verbatim>\<open>null\<close> the accessor is out of reach and the key is
  an ordinary one.
\<close>

type_synonym jsobject = "(string \<times> json) list \<times> bool"

definition objSet :: "jsobject \<Rightarrow> string \<Rightarrow> json \<Rightarrow> jsobject" where
  "objSet obj k v =
     (let own = fst obj; nullProto = snd obj in
      if k \<in> fst ` set own then (replaceValue k v own, nullProto)
      else if k = ''__proto__'' \<and> \<not> nullProto then
        (if v = JNull then (own, True)
         else if typeof v = ''object'' then (own, False)
         else (own, nullProto))
      else if isArrayIndex k then (insertIndexKey k v own, nullProto)
      else (own @ [(k, v)], nullProto))"

text \<open>
  The inner \<^verbatim>\<open>flatten(current, prefix)\<close> of \<^verbatim>\<open>flattenObjectToTable\<close>, threading the
  object \<^verbatim>\<open>flattened\<close> it assigns to; the second argument is what is left of
  \<^verbatim>\<open>Object.keys(current)\<close>.
\<close>

fun flatten :: "string \<Rightarrow> (string \<times> json) list \<Rightarrow> jsobject \<Rightarrow> jsobject" where
  "flatten pfx [] flattened = flattened"
| "flatten pfx ((key, JObj kvs) # rest) flattened =
     flatten pfx rest
       (flatten (if pfx \<noteq> [] then pfx @ ''.'' @ key else key) kvs flattened)"
| "flatten pfx ((key, v) # rest) flattened =
     flatten pfx rest
       (objSet flattened (if pfx \<noteq> [] then pfx @ ''.'' @ key else key) v)"

definition flattenObjectToTable :: "(string \<times> json) list \<Rightarrow> json list" where
  "flattenObjectToTable obj = [JObj (fst (flatten [] obj ([], False)))]"

text \<open>The elements of an array value.\<close>

fun items :: "json \<Rightarrow> json list" where
  "items (JArr xs) = xs"
| "items v = []"

text \<open>
  The \<^verbatim>\<open>reduce\<close> without an initial value that picks the longest array: a later array
  replaces the current one only when it is strictly longer.
\<close>

definition longestOf :: "json \<Rightarrow> json list \<Rightarrow> json" where
  "longestOf first others =
     foldl (\<lambda>longest current.
              if length (items current) > length (items longest) then current else longest)
           first others"

text \<open>
  The rest of the object branch of \<^verbatim>\<open>extractTableData\<close>, reached when no array
  property supplied the rows.
\<close>

definition objectRows :: "(string \<times> json) list \<Rightarrow> json list" where
  "objectRows kvs =
     (if list_ex isPlainObject (map snd kvs) then flattenObjectToTable kvs
      else map (\<lambda>(key, v). JObj [(''key'', JStr key), (''value'', v)]) kvs)"

text \<open>\<^verbatim>\<open>JSONParser.extractTableData\<close>; \<^const>\<open>Inl\<close> is the message of a thrown error.\<close>

fun extractTableData :: "host \<Rightarrow> json \<Rightarrow> string + json list" where
  "extractTableData h (JArr data) =
     (case data of
        [] \<Rightarrow> Inr []
      | first # others \<Rightarrow>
          if isPlainObject first then Inr data
          else if isArray first then arrayOfArraysRows h data
          else Inr (primitiveRows data))"
| "extractTableData h (JObj kvs) =
     (case filter isArray (map snd kvs) of
        [] \<Rightarrow> Inr (objectRows kvs)
      | first # others \<Rightarrow>
          (case items (longestOf first others) of
             [] \<Rightarrow> Inr (objectRows kvs)
           | x # xs \<Rightarrow>
               if isPlainObject x then Inr (x # xs)
               else if typeof x \<noteq> ''object'' then Inr (primitiveRows (x # xs))
               else Inr (objectRows kvs)))"
| "extractTableData h v = Inr [JObj [(''value'', v)]]"

section \<open>Rounding to a double\<close>

text \<open>
  Numbers are doubles. Sums, differences and remainders of the integers and of the
  time values met below are exact; a product or a quotient that is not is rounded to the
  nearest double, ties to the even mantissa.
\<close>

text \<open>The exponent \<open>\<lfloor>log\<^sub>2 n\<rfloor>\<close> of a positive integer.\<close>

function ilog2 :: "int \<Rightarrow> int" where
  "ilog2 n = (if n < 2 then 0 else 1 + ilog2 (n div 2))"
  by pat_completeness auto
termination
  by (relation "measure nat") auto

declare ilog2.simps [simp del]

text \<open>
  The exponent \<open>\<lfloor>log\<^sub>2 x\<rfloor>\<close> of a positive rational: the difference of the exponents of
  numerator and denominator, or one less.
\<close>

definition exponentOf :: "rat \<Rightarrow> int" where
  "exponentOf x =
     (let c = ilog2 (fst (quotient_of x)) - ilog2 (snd (quotient_of x))
      in if power_int 2 c \<le> x then c else c - 1)"

definition roundHalfEven :: "rat \<Rightarrow> int" where
  "roundHalfEven y =
     (let f = \<lfloor>y\<rfloor>; d = y - of_int f
      in if d < 1 / 2 then f else if 1 / 2 < d then f + 1 else if even f then f else f + 1)"

text \<open>
  The double nearest to \<open>x\<close>: a multiple of \<open>2\<^sup>e\<^sup>-\<^sup>5\<^sup>2\<close> for the exponent \<open>e\<close> of \<open>x\<close>, so that
  the mantissa has 53 bits. The range of the exponent is not limited here; the numbers
  rounded below are far from the ends of the doubles.
\<close>

definition roundDouble :: "rat \<Rightarrow> rat" where
  "roundDouble x =
     (if x = 0 then 0
      else (let q = power_int 2 (exponentOf \<bar>x\<bar> - 52)
            in of_int (roundHalfEven (x / q)) * q))"

section \<open>Display types\<close>

text \<open>
  \<^verbatim>\<open>a % m\<close> on numbers: the remainder has the sign of the dividend, the quotient is
  cut towards zero.
\<close>

definition truncRat :: "rat \<Rightarrow> int" where
  "truncRat r = (if r \<ge> 0 then \<lfloor>r\<rfloor> else \<lceil>r\<rceil>)"

definition jsRem :: "rat \<Rightarrow> rat \<Rightarrow> rat" where
  "jsRem a m = a - m * of_int (truncRat (a / m))"

text \<open>
  \<^verbatim>\<open>new Date(ms)\<close> followed by the test \<^verbatim>\<open>!isNaN(date.getTime())\<close>: the time value
  is the argument cut to an integer, and the date is invalid (\<^const>\<open>None\<close>) beyond
  \<open>8.64 \<times> 10\<^sup>1\<^sup>5\<close> milliseconds on either side of the epoch.
\<close>

definition newDate :: "rat \<Rightarrow> int option" where
  "newDate ms = (if \<bar>ms\<bar> > 8640000000000000 then None else Some (truncRat ms))"

text \<open>
  The end of the numeric branch of \<^verbatim>\<open>formatAsTime\<close>: a valid date is rendered by
  \<^verbatim>\<open>toLocaleString('ko-KR', options)\<close>, an invalid one falls through to
  \<^verbatim>\<open>String(value)\<close>.
\<close>

definition dateText :: "host \<Rightarrow> rat \<Rightarrow> int option \<Rightarrow> string" where
  "dateText h v date =
     (case date of Some t \<Rightarrow> toLocaleString h t | None \<Rightarrow> toStr h (JNum v))"

text \<open>\<^verbatim>\<open>n.toString().padStart(2, '0')\<close> on an integer.\<close>

definition pad2 :: "host \<Rightarrow> int \<Rightarrow> string" where
  "pad2 h n = padStart0 2 (numberToRadix h 10 (of_int n))"

text \<open>
  \<^verbatim>\<open>formatAsTime\<close>. The product \<^verbatim>\<open>value * 1000\<close> is rounded. So are the two quotients of
  the clock branch, but there the floor of the rounded quotient is the floor of the exact
  one: a double below a multiple of 3600 or of 60 is below it by a unit of its last
  place at least, which puts the quotient more than half a unit below the integer.
  \<^verbatim>\<open>%\<close> is exact.
\<close>

definition formatAsTime :: "host \<Rightarrow> json option \<Rightarrow> string" where
  "formatAsTime h value =
     (case value of
        Some (JNum v) \<Rightarrow>
          if v \<ge> 0 then
            (if v > 1000000000 \<and> v < 10000000000 then dateText h v (newDate (roundDouble (v * 1000)))
             else if v > 1000000000000 \<and> v < 10000000000000 then dateText h v (newDate v)
             else if v > 0 \<and> v < 86400 then
               (let hours = \<lfloor>v / 3600\<rfloor>;
                    minutes = \<lfloor>jsRem v 3600 / 60\<rfloor>;
                    seconds = \<lfloor>jsRem v 60\<rfloor>
                in pad2 h hours @ '':'' @ pad2 h minutes @ '':'' @ pad2 h seconds)
             else dateText h v (newDate v))
          else toStr h (JNum v)
      | _ \<Rightarrow> String_of h value)"

definition formatAsHex :: "host \<Rightarrow> json option \<Rightarrow> string" where
  "formatAsHex h value =
     (case value of
        Some (JNum v) \<Rightarrow> ''0x'' @ toUpperCase (numberToRadix h 16 v)
      | _ \<Rightarrow> String_of h value)"

definition formatAsBinary :: "host \<Rightarrow> json option \<Rightarrow> string" where
  "formatAsBinary h value =
     (case value of
        Some (JNum v) \<Rightarrow>
          if isInteger v then ''0b'' @ numberToRadix h 2 v else String_of h value
      | _ \<Rightarrow> String_of h value)"

section \<open>Reading a property of a row\<close>

text \<open>
  The rows are the elements of the table data, whatever they are: the renderer receives
  the parsed array as it is. \<^verbatim>\<open>row[column]\<close> finds an own property first: a property
  of an object, an element or the \<^verbatim>\<open>length\<close> of an array, a character or the
  \<^verbatim>\<open>length\<close> of a string.
\<close>

fun ownProperty :: "json \<Rightarrow> string \<Rightarrow> json option" where
  "ownProperty (JObj kvs) k = map_of kvs k"
| "ownProperty (JArr xs) k =
     (if isArrayIndex k \<and> intOfDigits k < int (length xs) then Some (xs ! nat (intOfDigits k))
      else if k = ''length'' then Some (JNum (of_nat (length xs)))
      else None)"
| "ownProperty (JStr s) k =
     (if isArrayIndex k \<and> intOfDigits k < int (length s) then Some (JStr [s ! nat (intOfDigits k)])
      else if k = ''length'' then Some (JNum (of_nat (length s)))
      else None)"
| "ownProperty v k = None"

text \<open>
  Without an own property the lookup goes on along the prototype chain, where it finds
  the methods of the runtime (\<^verbatim>\<open>toString\<close>, \<^verbatim>\<open>constructor\<close> and so on): values that
  are neither \<^verbatim>\<open>null\<close> nor \<^verbatim>\<open>undefined\<close> nor numbers, known here by the string
  \<^verbatim>\<open>String\<close> makes of them. The prototype of a row is that of its kind (object, array,
  string, number, boolean); the one row that flattening builds may have another, and is
  never compared, being alone in its table. Reading a property of \<^verbatim>\<open>null\<close> throws; the
  callers below see to that case before they read.
\<close>

datatype cell = Undefined | Value json | Inherited string

definition getProperty :: "host \<Rightarrow> json \<Rightarrow> string \<Rightarrow> cell" where
  "getProperty h row k =
     (case ownProperty row k of
        Some v \<Rightarrow> Value v
      | None \<Rightarrow> (case inheritedString h row k of Some s \<Rightarrow> Inherited s | None \<Rightarrow> Undefined))"

text \<open>\<^verbatim>\<open>String(v)\<close> on what a property read returned.\<close>

fun cellString :: "host \<Rightarrow> cell \<Rightarrow> string" where
  "cellString h Undefined = ''undefined''"
| "cellString h (Value v) = toStr h v"
| "cellString h (Inherited s) = s"

section \<open>Sorting\<close>

definition isNullish :: "cell \<Rightarrow> bool" where
  "isNullish v = (v = Value JNull \<or> v = Undefined)"

text \<open>
  The comparator \<^verbatim>\<open>sortTable\<close> hands to \<^verbatim>\<open>Array.prototype.sort\<close>, first on the two
  values it read, then on two rows.
\<close>

definition compareCells :: "host \<Rightarrow> string \<Rightarrow> cell \<Rightarrow> cell \<Rightarrow> rat" where
  "compareCells h direction aVal bVal =
     (if isNullish aVal then 1
      else if isNullish bVal then - 1
      else
        (case (aVal, bVal) of
           (Value (JNum x), Value (JNum y)) \<Rightarrow> if direction = ''asc'' then x - y else y - x
         | _ \<Rightarrow>
             (let aStr = toLowerCase (cellString h aVal);
                  bStr = toLowerCase (cellString h bVal)
              in if direction = ''asc'' then of_int (localeCompare h aStr bStr)
                 else of_int (localeCompare h bStr aStr))))"

definition compareRows :: "host \<Rightarrow> string \<Rightarrow> string \<Rightarrow> json \<Rightarrow> json \<Rightarrow> rat" where
  "compareRows h column direction a b =
     compareCells h direction (getProperty h a column) (getProperty h b column)"

text \<open>
  \<^verbatim>\<open>sortTable\<close>: the rows it hands to \<^verbatim>\<open>renderTableBody\<close>, or \<^const>\<open>None\<close> when
  it returns at once on empty data and renders nothing. The order is the one the
  runtime's \<^verbatim>\<open>Array.prototype.sort\<close> gives with the comparator; the difference of two
  doubles, which the comparator returns rounded, has the sign of the exact one. A \<^verbatim>\<open>null\<close> row
  makes the comparator throw as soon as it is compared, which happens to every row when
  there are at least two; the TypeError leaves \<^verbatim>\<open>sortTable\<close> (\<^const>\<open>Inl\<close>).
\<close>

definition sortTable :: "host \<Rightarrow> string \<Rightarrow> string \<Rightarrow> json list \<Rightarrow> string + json list option" where
  "sortTable h column direction data =
     (if data = [] then Inr None
      else if JNull \<in> set data \<and> 2 \<le> length data then Inl (nullPropertyError h column)
      else Inr (Some (engineSort h (compareRows h column direction) data)))"

section \<open>Searching\<close>

text \<open>What the table area shows after a call of the renderer.\<close>

datatype view = Table "json list" | EmptyState | NoResults string

definition renderTable :: "json list \<Rightarrow> view" where
  "renderTable data = (if data = [] then EmptyState else Table data)"


text \<open>
  \<^verbatim>\<open>Object.values(v)\<close>: the values of an object, the elements of an array, the
  characters of a string, nothing for a number or a boolean; on \<^verbatim>\<open>null\<close> it throws a
  TypeError, which is \<^const>\<open>None\<close> here.
\<close>

fun Object_values :: "json \<Rightarrow> json list option" where
  "Object_values JNull = None"
| "Object_values (JBool b) = Some []"
| "Object_values (JNum n) = Some []"
| "Object_values (JStr s) = Some (map (\<lambda>c. JStr [c]) s)"
| "Object_values (JArr xs) = Some xs"
| "Object_values (JObj kvs) = Some (map snd kvs)"

text \<open>The predicate of the \<^verbatim>\<open>originalData.filter\<close> of \<^verbatim>\<open>searchTable\<close>, on a row that is not \<^verbatim>\<open>null\<close>.\<close>

definition rowMatches :: "host \<Rightarrow> string \<Rightarrow> json \<Rightarrow> bool" where
  "rowMatches h searchTerm row =
     (case Object_values row of
        Some vs \<Rightarrow>
          list_ex (\<lambda>v. includesStr (toLowerCase (toStr h v)) (toLowerCase searchTerm)) vs
      | None \<Rightarrow> False)"

text \<open>
  \<^verbatim>\<open>searchTable\<close>: what is shown, or the message of the TypeError that leaves it when
  the filter reaches a \<^verbatim>\<open>null\<close> row (\<^const>\<open>Inl\<close>).
\<close>

definition searchTable :: "host \<Rightarrow> string \<Rightarrow> json list \<Rightarrow> string + view" where
  "searchTable h searchTerm originalData =
     (if searchTerm = [] \<or> trim searchTerm = [] then Inr (renderTable originalData)
      else if JNull \<in> set originalData then Inl (nullPropertyError h ''values'')
      else
        (let filteredData = filter (rowMatches h searchTerm) originalData
         in if filteredData = [] then Inr (NoResults searchTerm)
            else Inr (renderTable filteredData)))"

section \<open>Column widths\<close>

text \<open>
  Pixel widths are integers: \<^verbatim>\<open>calculateOptimalColumnWidth\<close> adds integer weights and
  clamps, and \<^verbatim>\<open>offsetWidth\<close> is an integer. Their sums and differences are exact in
  doubles. The ratio and its products with the widths are not: each is rounded.
\<close>

definition minColumnWidth :: int where
  "minColumnWidth = 100"

definition maxColumnWidth :: int where
  "maxColumnWidth = 300"

text \<open>
  The last step of \<^verbatim>\<open>calculateOptimalColumnWidth\<close>, from what it measured on the
  column: whether it is numeric, the width of the header and the greatest cell width.
\<close>

definition optimalWidth :: "bool \<Rightarrow> int \<Rightarrow> int \<Rightarrow> int" where
  "optimalWidth isNumericColumn headerWidth maxCellWidth =
     max minColumnWidth
         (min (if isNumericColumn then 120 else maxColumnWidth) (max headerWidth maxCellWidth))"

text \<open>The ideal widths \<^verbatim>\<open>adjustColumnWidths\<close> collects, one for each header.\<close>

definition idealWidths :: "(bool \<times> int \<times> int) list \<Rightarrow> int list" where
  "idealWidths columns =
     map (\<lambda>(isNumericColumn, headerWidth, maxCellWidth).
            optimalWidth isNumericColumn headerWidth maxCellWidth) columns"

text \<open>
  \<^verbatim>\<open>adjustColumnWidths\<close> from the ideal widths of the columns on: the widths it
  assigns, or \<^const>\<open>None\<close> when the table has no header and it returns at once.
\<close>

definition adjustColumnWidths :: "int list \<Rightarrow> int \<Rightarrow> int list option" where
  "adjustColumnWidths columnWidths containerWidth =
     (if columnWidths = [] then None
      else
        (let totalWidth = sum_list columnWidths;
             availableWidth = containerWidth - 60
         in if totalWidth \<le> availableWidth then Some columnWidths
            else
              (let ratio = roundDouble (of_int availableWidth / of_int totalWidth)
               in Some (map (\<lambda>width. max minColumnWidth
                                        \<lfloor>roundDouble (of_int width * ratio)\<rfloor>)
                            columnWidths))))"

section \<open>The parse entry point\<close>

text \<open>
  The messages of \<^verbatim>\<open>parseJSON\<close> and \<^verbatim>\<open>formatErrorMessage\<close> are fixed Korean
  sentences; each is a constructor here. \<open>MsgGeneric m\<close> is the sentence that ends in the
  raw message \<open>m\<close>.
\<close>

datatype message =
    MsgNoInput
  | MsgMalformedToken
  | MsgTruncatedInput
  | MsgMalformedString
  | MsgMalformedNumber
  | MsgInvalidIdentifier
  | MsgGeneric string

definition formatErrorMessage :: "string \<Rightarrow> message" where
  "formatErrorMessage m =
     (if includesStr m ''Unexpected token'' then MsgMalformedToken
      else if includesStr m ''Unexpected end of JSON input'' then MsgTruncatedInput
      else if includesStr m ''Unexpected string'' then MsgMalformedString
      else if includesStr m ''Unexpected number'' then MsgMalformedNumber
      else if includesStr m ''Unexpected identifier'' then MsgInvalidIdentifier
      else MsgGeneric m)"

record result =
  success :: bool
  data :: "json option"
  error :: "message option"
  type :: "string option"
  rowCount :: nat
  columnCount :: nat

definition initialResult :: result where
  "initialResult =
     \<lparr>success = False, data = None, error = None, type = None, rowCount = 0, columnCount = 0\<rparr>"

text \<open>
  \<^verbatim>\<open>JSONParser.parseJSON\<close>. Every throw inside the \<^verbatim>\<open>try\<close> lands in the
  \<^verbatim>\<open>catch\<close>, which keeps what the result already holds and sets the error.
\<close>

definition parseJSON :: "host \<Rightarrow> string \<Rightarrow> result" where
  "parseJSON h jsonString =
     (if jsonString = [] \<or> trim jsonString = [] then initialResult\<lparr>error := Some MsgNoInput\<rparr>
      else
        (case JSON_parse h jsonString of
           Inl m \<Rightarrow> initialResult\<lparr>error := Some (formatErrorMessage m)\<rparr>
         | Inr parsedData \<Rightarrow>
             (let r = initialResult\<lparr>success := True, data := Some parsedData,
                                     type := Some (getDataType parsedData)\<rparr>
              in case extractTableData h parsedData of
                   Inl m \<Rightarrow> r\<lparr>error := Some (formatErrorMessage m)\<rparr>
                 | Inr tableData \<Rightarrow>
                     (let r' = r\<lparr>data := Some (JArr tableData), rowCount := length tableData\<rparr>
                      in case tableData of
                           [] \<Rightarrow> r'\<lparr>columnCount := 0\<rparr>
                         | row # rest \<Rightarrow>
                             (case Object_keys row of
                                None \<Rightarrow> r'\<lparr>error := Some (formatErrorMessage
                                                          (nullPropertyError h ''keys''))\<rparr>
                              | Some ks \<Rightarrow> r'\<lparr>columnCount := length ks\<rparr>)))))"

section \<open>Notions the statements below use\<close>

text \<open>
  The greatest length among the arrays of an array of arrays, and a row as the
  specification describes it: the original position under \<^verbatim>\<open>_rowIndex\<close>, then one
  cell for each of the \<open>n\<close> synthetic columns, \<^verbatim>\<open>null\<close> where the array has no element.
\<close>

definition maxLen :: "json list \<Rightarrow> nat" where
  "maxLen dat = Max (set (map (\<lambda>arr. length (items arr)) dat))"

definition paddedRow :: "nat \<Rightarrow> nat \<Rightarrow> json list \<Rightarrow> (string \<times> json) list" where
  "paddedRow n i xs =
     (''_rowIndex'', JNum (of_nat i)) #
     map (\<lambda>j. (''column_'' @ digitsOf 10 (int j), if j < length xs then xs ! j else JNull))
         [0..<n]"

text \<open>
  Sorting by the sign of a comparator: stable insertion, where an element moves in front
  of an earlier one only when the comparator, called with the later element first,
  answers a negative number.
\<close>

fun insertSorted :: "('a \<Rightarrow> 'a \<Rightarrow> rat) \<Rightarrow> 'a \<Rightarrow> 'a list \<Rightarrow> 'a list" where
  "insertSorted cmp x [] = [x]"
| "insertSorted cmp x (y # ys) =
     (if cmp y x < 0 then y # insertSorted cmp x ys else x # y # ys)"

definition stableSort :: "('a \<Rightarrow> 'a \<Rightarrow> rat) \<Rightarrow> 'a list \<Rightarrow> 'a list" where
  "stableSort cmp xs = foldr (insertSorted cmp) xs []"







text \<open>
  A runtime for the closed instances below: a parser that knows two documents, with the
  message V8 gives for the malformed one, collation by code units, four of the methods
  every object inherits, stable insertion for a sort, and fixed answers elsewhere. Every
  theorem is stated for an arbitrary runtime; this one only supplies concrete inputs.
\<close>

definition sampleParse :: "string \<Rightarrow> string + json" where
  \<open>sampleParse s =
     (if s = ''[{"a":1},{"b":2}]'' then Inr (JArr [JObj [(''a'', JNum 1)], JObj [(''b'', JNum 2)]])
      else if s = ''{"a":}'' then Inl ''Unexpected token } in JSON at position 5''
      else Inl ''Unexpected end of JSON input'')\<close>

definition sampleInherited :: "json \<Rightarrow> string \<Rightarrow> string option" where
  "sampleInherited row name =
     (if isPlainObject row then
        map_of [(''toString'', ''function toString() { [native code] }''),
                (''valueOf'', ''function valueOf() { [native code] }''),
                (''hasOwnProperty'', ''function hasOwnProperty() { [native code] }''),
                (''constructor'', ''function Object() { [native code] }'')] name
      else None)"

definition sampleHost :: host where
  "sampleHost =
     \<lparr>JSON_parse = sampleParse,
      numberToString = (\<lambda>n. ''0.5''),
      numberToStringRadix = (\<lambda>radix n. ''0.8''),
      stringToNumber = (\<lambda>s. None),
      localeCompare = (\<lambda>a b. if a < b then - 1 else if a = b then 0 else 1),
      toLocaleString = (\<lambda>t. ''2033. 05. 18. 12:33:20''),
      nullPropertyError = (\<lambda>p. ''Cannot read properties of null''),
      inheritedString = sampleInherited,
      engineSort = stableSort\<rparr>"

text \<open>
  The number-time formatter as C6 words it, for comparison with \<^const>\<open>formatAsTime\<close>:
  seconds from \<open>10\<^sup>9\<close> on, milliseconds from \<open>10\<^sup>1\<^sup>2\<close> on, the time of day strictly
  between 0 and 86400, and every other number a timestamp in milliseconds.
\<close>

definition formatAsTime_as_claimed :: "host \<Rightarrow> rat \<Rightarrow> string" where
  "formatAsTime_as_claimed h v =
     (if 1000000000 \<le> v \<and> v < 10000000000 then
        dateText h v (newDate (roundDouble (v * 1000)))
      else if 1000000000000 \<le> v \<and> v < 10000000000000 then dateText h v (newDate v)
      else if 0 < v \<and> v < 86400 then
        pad2 h \<lfloor>v / 3600\<rfloor> @ '':'' @ pad2 h \<lfloor>jsRem v 3600 / 60\<rfloor> @ '':''
          @ pad2 h \<lfloor>jsRem v 60\<rfloor>
      else dateText h v (newDate v))"

section \<open>Properties: header derivation\<close>

lemma set_foldl_Set_add: "set (foldl Set_add s ks) = set s \<union> set ks"
  by (induction ks arbitrary: s) (auto simp: Set_add_def)

lemma distinct_foldl_Set_add: "distinct s \<Longrightarrow> distinct (foldl Set_add s ks)"
  by (induction ks arbitrary: s) (auto simp: Set_add_def)

lemma set_addRowKeys: "set (addRowKeys s row) = set s \<union> rowKeys row"
  by (cases row) (auto simp: addRowKeys_def rowKeys_def set_foldl_Set_add)

lemma distinct_addRowKeys: "distinct s \<Longrightarrow> distinct (addRowKeys s row)"
  by (cases row) (auto simp: addRowKeys_def distinct_foldl_Set_add)

lemma set_foldl_addRowKeys:
  "set (foldl addRowKeys s dat) = set s \<union> (\<Union>row \<in> set dat. rowKeys row)"
  by (induction dat arbitrary: s) (auto simp: set_addRowKeys)

lemma distinct_foldl_addRowKeys: "distinct s \<Longrightarrow> distinct (foldl addRowKeys s dat)"
  by (induction dat arbitrary: s) (auto simp: distinct_addRowKeys)

lemma extractHeadersFromObjects_sorted_union:
  "extractHeadersFromObjects dat = sorted_list_of_set (\<Union>row \<in> set dat. rowKeys row)"
proof -
  let ?hs = "foldl addRowKeys [] dat"
  have d: "distinct ?hs"
    by (rule distinct_foldl_addRowKeys) simp
  have s: "set ?hs = (\<Union>row \<in> set dat. rowKeys row)"
    by (simp add: set_foldl_addRowKeys)
  have "sort ?hs = sorted_list_of_set (set ?hs)"
    using d by (simp add: sorted_list_of_set_sort_remdups distinct_remdups_id)
  then show ?thesis
    by (simp add: extractHeadersFromObjects_def s)
qed

lemma rowKeys_JObj: "rowKeys (JObj kvs) = fst ` set kvs"
  by (simp add: rowKeys_def)

text \<open>
  C1. For an array of row objects the header list is the sorted list of the union of the
  rows' keys: a function of the set of keys alone, whatever the order of the rows and
  whichever row holds which key. The rows \<^verbatim>\<open>[{"a":1},{"b":2}]\<close> give the headers
  \<^verbatim>\<open>["a","b"]\<close>.
\<close>

theorem extractHeadersFromObjects_rows:
  "extractHeadersFromObjects (map JObj rows)
     = sorted_list_of_set (\<Union>kvs \<in> set rows. fst ` set kvs)
   \<and> extractHeadersFromObjects [JObj [(''a'', JNum 1)], JObj [(''b'', JNum 2)]]
     = [''a'', ''b'']"
proof
  show "extractHeadersFromObjects (map JObj rows)
     = sorted_list_of_set (\<Union>kvs \<in> set rows. fst ` set kvs)"
    by (simp add: extractHeadersFromObjects_sorted_union rowKeys_JObj)
  show "extractHeadersFromObjects [JObj [(''a'', JNum 1)], JObj [(''b'', JNum 2)]]
     = [''a'', ''b'']"
    by (simp add: extractHeadersFromObjects_def addRowKeys_def Set_add_def)
qed

section \<open>Properties: rows of an object with array properties\<close>

lemma longestOf_invariant:
  "(\<forall>a \<in> set pre. length (items a) < length (items acc)) \<Longrightarrow>
   (\<forall>a \<in> set post. length (items a) \<le> length (items acc)) \<Longrightarrow>
   \<exists>pre' post'. pre @ acc # post @ others = pre' @ longestOf acc others # post'
     \<and> (\<forall>a \<in> set pre'. length (items a) < length (items (longestOf acc others)))
     \<and> (\<forall>a \<in> set post'. length (items a) \<le> length (items (longestOf acc others)))"
proof (induction others arbitrary: pre acc post)
  case Nil
  then show ?case by (auto simp: longestOf_def)
next
  case (Cons c cs)
  show ?case
  proof (cases "length (items c) > length (items acc)")
    case True
    have step: "longestOf acc (c # cs) = longestOf c cs"
      using True by (simp add: longestOf_def)
    have p: "\<forall>a \<in> set (pre @ acc # post). length (items a) < length (items c)"
      using True Cons.prems by fastforce
    have q: "\<forall>a \<in> set ([]::json list). length (items a) \<le> length (items c)"
      by simp
    from Cons.IH [OF p q] show ?thesis
      by (simp add: step)
  next
    case False
    have step: "longestOf acc (c # cs) = longestOf acc cs"
      using False by (simp add: longestOf_def)
    have q: "\<forall>a \<in> set (post @ [c]). length (items a) \<le> length (items acc)"
      using False Cons.prems by auto
    from Cons.IH [OF Cons.prems(1) q] show ?thesis
      by (simp add: step)
  qed
qed

lemma longestOf_first_longest:
  "\<exists>pre post. first # others = pre @ longestOf first others # post
     \<and> (\<forall>a \<in> set pre. length (items a) < length (items (longestOf first others)))
     \<and> (\<forall>a \<in> set post. length (items a) \<le> length (items (longestOf first others)))"
  using longestOf_invariant [of "[]" first "[]" others] by simp

lemma isPlainObject_simps [simp]:
  "isPlainObject (JObj kvs)" "\<not> isPlainObject JNull" "\<not> isPlainObject (JBool b)"
  "\<not> isPlainObject (JNum n)" "\<not> isPlainObject (JStr s)" "\<not> isPlainObject (JArr xs)"
  by (simp_all add: isPlainObject_def)

text \<open>
  C2, as the code has it. Among the array-valued properties of an object the reduction
  selects the longest, the first one among equally long ones. When the selected array is
  not empty and its first element is a plain object, or a primitive other than
  \<^verbatim>\<open>null\<close>, the rows are those the array rules give for that array alone, so no
  sibling property contributes a row. When the selected array is empty, the guard
  \<^verbatim>\<open>longestArray.length > 0\<close> sends the object on to the flattening and key/value
  rules. The object \<^verbatim>\<open>{"users":[{"id":1}],"settings":{"x":1}}\<close> yields the single
  row of \<^verbatim>\<open>users\<close>.
\<close>

theorem extractTableData_object_with_arrays:
  assumes "filter isArray (map snd kvs) = first # others"
  shows "(\<exists>pre post. first # others = pre @ longestOf first others # post
            \<and> (\<forall>a \<in> set pre. length (items a) < length (items (longestOf first others)))
            \<and> (\<forall>a \<in> set post. length (items a) \<le> length (items (longestOf first others))))
       \<and> (\<forall>x xs. items (longestOf first others) = x # xs \<longrightarrow>
             isPlainObject x \<or> typeof x \<noteq> ''object'' \<longrightarrow>
             extractTableData h (JObj kvs) = extractTableData h (JArr (x # xs))
             \<and> (isPlainObject x \<longrightarrow> extractTableData h (JObj kvs) = Inr (x # xs))
             \<and> (\<not> isPlainObject x \<longrightarrow>
                    extractTableData h (JObj kvs) = Inr (primitiveRows (x # xs))))
       \<and> (items (longestOf first others) = [] \<longrightarrow>
             extractTableData h (JObj kvs) = Inr (objectRows kvs))
       \<and> extractTableData h
            (JObj [(''users'', JArr [JObj [(''id'', JNum 1)]]),
                   (''settings'', JObj [(''x'', JNum 1)])])
           = Inr [JObj [(''id'', JNum 1)]]"
proof (intro conjI allI impI)
  show "\<exists>pre post. first # others = pre @ longestOf first others # post
            \<and> (\<forall>a \<in> set pre. length (items a) < length (items (longestOf first others)))
            \<and> (\<forall>a \<in> set post. length (items a) \<le> length (items (longestOf first others)))"
    by (rule longestOf_first_longest)
next
  fix x xs
  assume l: "items (longestOf first others) = x # xs"
    and t: "isPlainObject x \<or> typeof x \<noteq> ''object''"
  show "extractTableData h (JObj kvs) = extractTableData h (JArr (x # xs))"
    using assms l t by (cases x) (auto simp: isPlainObject_def)
  show "extractTableData h (JObj kvs) = Inr (x # xs)" if "isPlainObject x"
    using assms l that by simp
  show "extractTableData h (JObj kvs) = Inr (primitiveRows (x # xs))" if "\<not> isPlainObject x"
    using assms l t that by simp
next
  assume "items (longestOf first others) = []"
  then show "extractTableData h (JObj kvs) = Inr (objectRows kvs)"
    using assms by simp
next
  show "extractTableData h
            (JObj [(''users'', JArr [JObj [(''id'', JNum 1)]]),
                   (''settings'', JObj [(''x'', JNum 1)])])
           = Inr [JObj [(''id'', JNum 1)]]"
    by (simp add: longestOf_def)
qed

text \<open>
  The theorem at an object with three array properties, two of them of the greatest
  length 2: the first of the two supplies the rows.
\<close>

theorem extractTableData_object_with_arrays_witness:
  "\<forall>h. extractTableData h (JObj [(''n'', JNum 7), (''a'', JArr [JNum 1]), (''b'', JArr [JStr ''x'', JStr ''y'']), (''c'', JArr [JBool True, JNull])])
        = Inr [JObj [(''index'', JNum 0), (''value'', JStr ''x'')],
               JObj [(''index'', JNum 1), (''value'', JStr ''y'')]]"
proof
  fix h
  let ?kvs = "[(''n'', JNum 7), (''a'', JArr [JNum 1]), (''b'', JArr [JStr ''x'', JStr ''y'']), (''c'', JArr [JBool True, JNull])]"
  have a: "filter isArray (map snd ?kvs) = JArr [JNum 1] # [JArr [JStr ''x'', JStr ''y''], JArr [JBool True, JNull]]"
    by simp
  have l: "items (longestOf (JArr [JNum 1]) [JArr [JStr ''x'', JStr ''y''], JArr [JBool True, JNull]]) = JStr ''x'' # [JStr ''y'']"
    by (simp add: longestOf_def)
  show "extractTableData h (JObj ?kvs) = Inr [JObj [(''index'', JNum 0), (''value'', JStr ''x'')],
               JObj [(''index'', JNum 1), (''value'', JStr ''y'')]]"
    using extractTableData_object_with_arrays [OF a, of h] l
    by (simp add: primitiveRows_def)
qed

text \<open>
  C2 as stated fails on an empty array property: the array rules give no row for
  \<^verbatim>\<open>[]\<close>, but \<^verbatim>\<open>{"a":[]}\<close> yields the key/value row of \<^verbatim>\<open>a\<close>.
\<close>

theorem extractTableData_empty_array_property:
  "\<forall>h. extractTableData h (JObj [(''a'', JArr [])])
          = Inr [JObj [(''key'', JStr ''a''), (''value'', JArr [])]]
      \<and> extractTableData h (JArr []) = Inr []"
  by (simp add: longestOf_def objectRows_def)

section \<open>Properties: arrays of arrays\<close>

lemma intOfDigits_snoc:
  "intOfDigits (s @ [c]) = 10 * intOfDigits s + (of_char c - 48)"
  by (simp add: intOfDigits_def)

lemma of_char_digitChar_nat:
  "d \<in> {0, 1, 2, 3, 4, 5, 6, 7, 8, 9} \<Longrightarrow> (of_char (digitChar d) :: int) = 48 + int d"
  by (auto simp: digitChar_def)

lemma of_char_digitChar:
  assumes "0 \<le> n" "n < 10"
  shows "(of_char (digitChar (nat n)) :: int) = 48 + n"
proof -
  have "nat n \<in> {..<10}"
    using assms by simp
  also have "{..<10::nat} = {0, 1, 2, 3, 4, 5, 6, 7, 8, 9}"
    by auto
  finally have "(of_char (digitChar (nat n)) :: int) = 48 + int (nat n)"
    by (rule of_char_digitChar_nat)
  then show ?thesis
    using assms by simp
qed

lemma intOfDigits_digitsOf: "0 \<le> n \<Longrightarrow> intOfDigits (digitsOf 10 n) = n"
proof (induction "10::int" n rule: digitsOf.induct)
  case (1 n)
  show ?case
  proof (cases "n < 10")
    case True
    then have "digitsOf 10 n = [digitChar (nat n)]"
      by (simp add: digitsOf.simps)
    then show ?thesis
      using True "1.prems" of_char_digitChar [of n] by (simp add: intOfDigits_def)
  next
    case False
    then have unfold: "digitsOf 10 n = digitsOf 10 (n div 10) @ [digitChar (nat (n mod 10))]"
      by (subst digitsOf.simps) simp
    have ih: "intOfDigits (digitsOf 10 (n div 10)) = n div 10"
      using "1.hyps" False "1.prems" by simp
    have "(of_char (digitChar (nat (n mod 10))) :: int) = 48 + n mod 10"
      by (rule of_char_digitChar) simp_all
    then show ?thesis
      by (simp add: unfold intOfDigits_snoc ih)
  qed
qed

lemma digitsOf_10_inject:
  "digitsOf 10 (int i) = digitsOf 10 (int j) \<Longrightarrow> i = j"
proof -
  assume "digitsOf 10 (int i) = digitsOf 10 (int j)"
  then have "intOfDigits (digitsOf 10 (int i)) = intOfDigits (digitsOf 10 (int j))"
    by simp
  then show "i = j"
    by (simp add: intOfDigits_digitsOf)
qed

text \<open>The cells \<^verbatim>\<open>column_0\<close> to \<^verbatim>\<open>column_{n-1}\<close> of a row, as the loop writes them.\<close>

lemma map_of_columns:
  assumes "j < n"
  shows "map_of (map (\<lambda>i. (''column_'' @ digitsOf 10 (int i), g i)) [0..<n])
          (''column_'' @ digitsOf 10 (int j)) = Some (g j)"
proof -
  let ?cells = "map (\<lambda>i. (''column_'' @ digitsOf 10 (int i), g i)) [0..<n]"
  have "inj_on (\<lambda>i. ''column_'' @ digitsOf 10 (int i)) (set [0..<n])"
    by (rule inj_onI) (simp add: digitsOf_10_inject)
  then have "distinct (map fst ?cells)"
    by (simp add: distinct_map comp_def)
  moreover have "(''column_'' @ digitsOf 10 (int j), g j) \<in> set ?cells"
    using assms by auto
  ultimately show ?thesis
    by (rule map_of_is_SomeI)
qed

lemma Math_max_Some:
  "Math_max (Some a) (map (\<lambda>x. Some (f x)) xs) = Some (Max (set (a # map f xs)))"
proof (induction xs arbitrary: a)
  case Nil
  then show ?case by simp
next
  case (Cons b bs)
  have "Max (set (max a (f b) # map f bs)) = Max (set (a # f b # map f bs))"
  proof (cases bs)
    case Nil
    then show ?thesis by simp
  next
    case (Cons c cs)
    then show ?thesis
      by (simp add: max.assoc max.left_commute)
  qed
  then show ?case
    using Cons.IH [of "max a (f b)"] by simp
qed

lemma lengths_of_arrays:
  "list_all isArray xs \<Longrightarrow>
   map (\<lambda>arr. toNumber h (the (lengthProp arr))) xs
     = map (\<lambda>arr. Some (of_nat (length (items arr)))) xs"
proof (induction xs)
  case Nil
  then show ?case by simp
next
  case (Cons x xs)
  then show ?case by (cases x) simp_all
qed

lemma no_null_among_arrays:
  "list_all isArray xs \<Longrightarrow> \<not> list_ex (\<lambda>arr. lengthProp arr = None) xs"
proof (induction xs)
  case Nil
  then show ?case by simp
next
  case (Cons x xs)
  then show ?case by (cases x) simp_all
qed

lemma Max_of_nat_rat:
  "xs \<noteq> [] \<Longrightarrow> Max (set (map (\<lambda>a. (of_nat (f a) :: rat)) xs)) = of_nat (Max (set (map f xs)))"
proof -
  assume ne: "xs \<noteq> []"
  have "mono (of_nat :: nat \<Rightarrow> rat)"
    by (simp add: mono_def)
  then have "(of_nat (Max (f ` set xs)) :: rat) = Max (of_nat ` f ` set xs)"
    using ne by (intro mono_Max_commute) simp_all
  then show ?thesis
    by (simp add: image_image)
qed

lemma getIndex_JArr_or_null:
  "isArray arr \<Longrightarrow>
   (case getIndex arr j of Some v \<Rightarrow> v | None \<Rightarrow> JNull)
     = (if j < length (items arr) then items arr ! j else JNull)"
  by (cases arr) simp_all

lemma arrayOfArraysRows_arrays:
  assumes "dat \<noteq> []" "list_all isArray dat"
  shows "arrayOfArraysRows h dat
     = Inr (map (\<lambda>i. JObj (paddedRow (maxLen dat) i (items (dat ! i)))) [0..<length dat])"
proof -
  obtain x xs where dat: "dat = x # xs"
    using assms(1) by (cases dat) auto
  have lens: "map (\<lambda>arr. toNumber h (the (lengthProp arr))) dat
      = Some (of_nat (length (items x))) # map (\<lambda>arr. Some (of_nat (length (items arr)))) xs"
    using lengths_of_arrays [OF assms(2), of h] by (simp add: dat)
  have "Math_max (Some (of_nat (length (items x))))
             (map (\<lambda>arr. Some (of_nat (length (items arr)))) xs)
           = Some (Max (set (map (\<lambda>arr. of_nat (length (items arr))) dat)))"
    by (simp only: Math_max_Some dat list.map)
  then have m: "Math_max (Some (of_nat (length (items x))))
             (map (\<lambda>arr. Some (of_nat (length (items arr)))) xs)
           = Some (of_nat (maxLen dat))"
    using Max_of_nat_rat [OF assms(1), of "\<lambda>arr. length (items arr)"]
    by (simp only: maxLen_def)
  have rows: "map (\<lambda>(rowIndex, arr). arrayRow (maxLen dat) rowIndex arr) (zip [0..<length dat] dat)
      = map (\<lambda>i. JObj (paddedRow (maxLen dat) i (items (dat ! i)))) [0..<length dat]"
  proof (rule nth_equalityI)
    show "length (map (\<lambda>(rowIndex, arr). arrayRow (maxLen dat) rowIndex arr) (zip [0..<length dat] dat))
        = length (map (\<lambda>i. JObj (paddedRow (maxLen dat) i (items (dat ! i)))) [0..<length dat])"
      by simp
  next
    fix i
    assume "i < length (map (\<lambda>(rowIndex, arr). arrayRow (maxLen dat) rowIndex arr) (zip [0..<length dat] dat))"
    then have i: "i < length dat" by simp
    then have "isArray (dat ! i)"
      using assms(2) by (simp add: list_all_length)
    then show "map (\<lambda>(rowIndex, arr). arrayRow (maxLen dat) rowIndex arr) (zip [0..<length dat] dat) ! i
        = map (\<lambda>i. JObj (paddedRow (maxLen dat) i (items (dat ! i)))) [0..<length dat] ! i"
      using i by (simp add: arrayRow_def paddedRow_def getIndex_JArr_or_null)
  qed
  have "arrayOfArraysRows h dat
      = Inr (map (\<lambda>(rowIndex, arr). arrayRow (loopBound (Some (of_nat (maxLen dat)))) rowIndex arr)
              (zip [0..<length dat] dat))"
    using no_null_among_arrays [OF assms(2)]
    by (simp only: arrayOfArraysRows_def lens m if_False list.case)
  then show ?thesis
    by (simp add: rows loopBound_def)
qed

text \<open>
  C5, as the code has it. For a non-empty array whose elements are all arrays, row \<open>i\<close>
  is the record with \<^verbatim>\<open>_rowIndex\<close> \<open>i\<close> and exactly the cells \<^verbatim>\<open>column_0\<close> to
  \<^verbatim>\<open>column_{maxLen-1}\<close>, where \<open>maxLen\<close> is the greatest length among the element
  arrays: cell \<open>j\<close> holds element \<open>j\<close> of the array, or \<^verbatim>\<open>null\<close> when the array is
  shorter, so no element of any array is dropped.
\<close>

theorem extractTableData_array_of_arrays:
  assumes "dat \<noteq> []" "list_all isArray dat"
  shows "extractTableData h (JArr dat)
           = Inr (map (\<lambda>i. JObj (paddedRow (maxLen dat) i (items (dat ! i)))) [0..<length dat])
       \<and> (\<forall>i xs. map_of (paddedRow (maxLen dat) i xs) ''_rowIndex'' = Some (JNum (of_nat i))
            \<and> map fst (paddedRow (maxLen dat) i xs)
                = ''_rowIndex'' # map (\<lambda>j. ''column_'' @ digitsOf 10 (int j)) [0..<maxLen dat]
            \<and> (\<forall>j < maxLen dat.
                  map_of (paddedRow (maxLen dat) i xs) (''column_'' @ digitsOf 10 (int j))
                    = Some (if j < length xs then xs ! j else JNull)))
       \<and> (\<forall>arr \<in> set dat. length (items arr) \<le> maxLen dat)
       \<and> (\<exists>arr \<in> set dat. length (items arr) = maxLen dat)"
proof (intro conjI allI impI ballI)
  obtain x xs where dat: "dat = x # xs"
    using assms(1) by (cases dat) auto
  have "isArray x" "\<not> isPlainObject x"
    using assms(2) dat by (cases x; simp add: isPlainObject_def)+
  then show "extractTableData h (JArr dat)
           = Inr (map (\<lambda>i. JObj (paddedRow (maxLen dat) i (items (dat ! i)))) [0..<length dat])"
    using arrayOfArraysRows_arrays [OF assms, of h] by (simp add: dat)
next
  fix i :: nat and xs :: "json list"
  show "map_of (paddedRow (maxLen dat) i xs) ''_rowIndex'' = Some (JNum (of_nat i))"
    by (simp add: paddedRow_def)
  show "map fst (paddedRow (maxLen dat) i xs)
                = ''_rowIndex'' # map (\<lambda>j. ''column_'' @ digitsOf 10 (int j)) [0..<maxLen dat]"
    by (simp add: paddedRow_def comp_def)
  fix j
  assume "j < maxLen dat"
  then show "map_of (paddedRow (maxLen dat) i xs) (''column_'' @ digitsOf 10 (int j))
                    = Some (if j < length xs then xs ! j else JNull)"
    using map_of_columns [of j "maxLen dat" "\<lambda>j. if j < length xs then xs ! j else JNull"]
    by (simp add: paddedRow_def)
next
  fix arr
  assume "arr \<in> set dat"
  then show "length (items arr) \<le> maxLen dat"
    by (simp add: maxLen_def)
next
  have "Max (set (map (\<lambda>arr. length (items arr)) dat)) \<in> set (map (\<lambda>arr. length (items arr)) dat)"
    using assms(1) by (intro Max_in) simp_all
  then show "\<exists>arr \<in> set dat. length (items arr) = maxLen dat"
    by (auto simp: maxLen_def)
qed

text \<open>The theorem at the ragged array \<^verbatim>\<open>[[1,2],[3]]\<close>.\<close>

theorem extractTableData_array_of_arrays_witness:
  "\<forall>h. extractTableData h (JArr [JArr [JNum 1, JNum 2], JArr [JNum 3]])
      = Inr [JObj [(''_rowIndex'', JNum 0), (''column_0'', JNum 1), (''column_1'', JNum 2)],
             JObj [(''_rowIndex'', JNum 1), (''column_0'', JNum 3), (''column_1'', JNull)]]"
proof
  fix h
  let ?dat = "[JArr [JNum 1, JNum 2], JArr [JNum 3]]"
  have a: "?dat \<noteq> []" by simp
  have b: "list_all isArray ?dat" by simp
  have m: "maxLen ?dat = 2" by (simp add: maxLen_def)
  have u: "[0..<2] = [0, 1]" by (simp add: upt_rec)
  have d0: "digitsOf 10 0 = ''0''" and d1: "digitsOf 10 1 = ''1''"
    by (simp_all add: digitsOf.simps digitChar_def)
  show "extractTableData h (JArr ?dat)
      = Inr [JObj [(''_rowIndex'', JNum 0), (''column_0'', JNum 1), (''column_1'', JNum 2)],
             JObj [(''_rowIndex'', JNum 1), (''column_0'', JNum 3), (''column_1'', JNull)]]"
    using extractTableData_array_of_arrays [OF a b, of h]
    by (simp add: m u paddedRow_def d0 d1)
qed

text \<open>
  C5 as stated fails when only the first element is an array: in \<^verbatim>\<open>[[1,2],5]\<close> the
  number has no \<^verbatim>\<open>length\<close>, the maximum is \<^verbatim>\<open>NaN\<close>, the column loop does not run,
  and the rows have no cell for \<^verbatim>\<open>column_0\<close> or \<^verbatim>\<open>column_1\<close>.
\<close>

theorem extractTableData_mixed_array:
  "\<forall>h. extractTableData h (JArr [JArr [JNum 1, JNum 2], JNum 5])
      = Inr [JObj [(''_rowIndex'', JNum 0)], JObj [(''_rowIndex'', JNum 1)]]"
  by (simp add: arrayOfArraysRows_def isPlainObject_def loopBound_def arrayRow_def upt_rec)

section \<open>Properties: parse failures\<close>

lemma formatErrorMessage_classes:
  "formatErrorMessage m \<in> {MsgMalformedToken, MsgTruncatedInput, MsgMalformedString,
      MsgMalformedNumber, MsgInvalidIdentifier, MsgGeneric m}"
  by (simp add: formatErrorMessage_def)

lemma formatErrorMessage_generic:
  "formatErrorMessage m = MsgGeneric m \<longleftrightarrow>
     \<not> (includesStr m ''Unexpected token'' \<or> includesStr m ''Unexpected end of JSON input''
        \<or> includesStr m ''Unexpected string'' \<or> includesStr m ''Unexpected number''
        \<or> includesStr m ''Unexpected identifier'')"
  by (simp add: formatErrorMessage_def)

lemma parseJSON_blank:
  "trim s = [] \<Longrightarrow> parseJSON h s = initialResult\<lparr>error := Some MsgNoInput\<rparr>"
  by (simp add: parseJSON_def)

lemma parseJSON_rejected:
  "trim s \<noteq> [] \<Longrightarrow> JSON_parse h s = Inl m \<Longrightarrow>
   parseJSON h s = initialResult\<lparr>error := Some (formatErrorMessage m)\<rparr>"
  by (auto simp: parseJSON_def trim_def)

lemma trim_malformed_sample: \<open>trim ''{"a":}'' \<noteq> []\<close>
  by (simp add: trim_def isWhiteSpace_def)

text \<open>
  C7, as the code has it. \<^verbatim>\<open>parseJSON\<close> always returns a result: every throw inside
  it is caught. A text that is empty or white space only gets the fixed message that no
  JSON was entered, and the parser is not called. For any other text the parser rejects,
  the result is the failure result (no success, no data, zero rows and columns) with the
  message \<^verbatim>\<open>formatErrorMessage\<close> derives from the parser's message: the first class
  whose pattern occurs in it, the generic class carrying the raw message when none does.
  The text \<^verbatim>\<open>{"a":}\<close> is such a text.
\<close>

theorem parseJSON_failure:
  \<open>(trim s = [] \<longrightarrow> parseJSON h s = initialResult\<lparr>error := Some MsgNoInput\<rparr>)
   \<and> (trim s \<noteq> [] \<longrightarrow> JSON_parse h s = Inl m \<longrightarrow>
         parseJSON h s = initialResult\<lparr>error := Some (formatErrorMessage m)\<rparr>
         \<and> \<not> success (parseJSON h s) \<and> data (parseJSON h s) = None
         \<and> rowCount (parseJSON h s) = 0 \<and> columnCount (parseJSON h s) = 0)
   \<and> formatErrorMessage m \<in> {MsgMalformedToken, MsgTruncatedInput, MsgMalformedString,
         MsgMalformedNumber, MsgInvalidIdentifier, MsgGeneric m}
   \<and> (formatErrorMessage m = MsgGeneric m \<longleftrightarrow>
         \<not> (includesStr m ''Unexpected token'' \<or> includesStr m ''Unexpected end of JSON input''
            \<or> includesStr m ''Unexpected string'' \<or> includesStr m ''Unexpected number''
            \<or> includesStr m ''Unexpected identifier''))
   \<and> (JSON_parse h ''{"a":}'' = Inl m \<longrightarrow>
         parseJSON h ''{"a":}'' = initialResult\<lparr>error := Some (formatErrorMessage m)\<rparr>)\<close>
proof (intro conjI impI)
  assume "trim s = []"
  then show "parseJSON h s = initialResult\<lparr>error := Some MsgNoInput\<rparr>"
    by (rule parseJSON_blank)
next
  assume a: "trim s \<noteq> []" "JSON_parse h s = Inl m"
  then show r: "parseJSON h s = initialResult\<lparr>error := Some (formatErrorMessage m)\<rparr>"
    by (rule parseJSON_rejected)
  show "\<not> success (parseJSON h s)" "data (parseJSON h s) = None"
    "rowCount (parseJSON h s) = 0" "columnCount (parseJSON h s) = 0"
    by (simp_all add: r initialResult_def)
next
  show "formatErrorMessage m \<in> {MsgMalformedToken, MsgTruncatedInput, MsgMalformedString,
         MsgMalformedNumber, MsgInvalidIdentifier, MsgGeneric m}"
    by (rule formatErrorMessage_classes)
next
  show "formatErrorMessage m = MsgGeneric m \<longleftrightarrow>
         \<not> (includesStr m ''Unexpected token'' \<or> includesStr m ''Unexpected end of JSON input''
            \<or> includesStr m ''Unexpected string'' \<or> includesStr m ''Unexpected number''
            \<or> includesStr m ''Unexpected identifier'')"
    by (rule formatErrorMessage_generic)
next
  assume \<open>JSON_parse h ''{"a":}'' = Inl m\<close>
  with trim_malformed_sample
  show \<open>parseJSON h ''{"a":}'' = initialResult\<lparr>error := Some (formatErrorMessage m)\<rparr>\<close>
    by (rule parseJSON_rejected)
qed

lemma sample_malformed_message:
  "formatErrorMessage ''Unexpected token } in JSON at position 5'' = MsgMalformedToken"
  unfolding formatErrorMessage_def includesStr_def by code_simp

text \<open>
  The theorem at \<^verbatim>\<open>{"a":}\<close>, which V8 rejects with an unexpected-token message, and at
  a single space.
\<close>

theorem parseJSON_failure_witness:
  \<open>trim ''{"a":}'' \<noteq> []
   \<and> JSON_parse sampleHost ''{"a":}'' = Inl ''Unexpected token } in JSON at position 5''
   \<and> parseJSON sampleHost ''{"a":}'' = initialResult\<lparr>error := Some MsgMalformedToken\<rparr>
   \<and> trim '' '' = []
   \<and> parseJSON sampleHost '' '' = initialResult\<lparr>error := Some MsgNoInput\<rparr>\<close>
proof -
  have p: \<open>JSON_parse sampleHost ''{"a":}'' = Inl ''Unexpected token } in JSON at position 5''\<close>
    by (simp add: sampleHost_def sampleParse_def)
  have b: "trim '' '' = []"
    by (simp add: trim_def isWhiteSpace_def)
  show ?thesis
    using parseJSON_failure [of \<open>''{"a":}''\<close> sampleHost "''Unexpected token } in JSON at position 5''"]
      parseJSON_failure [of "'' ''" sampleHost "[]"]
      trim_malformed_sample p b sample_malformed_message
    by simp
qed

text \<open>
  C7 as stated fails on a blank text: a single space is not valid JSON, yet its message
  is the no-input sentence, which no parser message is ever classified into.
\<close>

theorem parseJSON_blank_input:
  "\<forall>h. error (parseJSON h '' '') = Some MsgNoInput \<and> (\<forall>m. formatErrorMessage m \<noteq> MsgNoInput)"
  by (simp add: parseJSON_def trim_def isWhiteSpace_def formatErrorMessage_def initialResult_def)

section \<open>Properties: the column count of the parse result\<close>










text \<open>
  A property named \<^verbatim>\<open>__proto__\<close> is not a column of the flattened row: the assignment
  reaches the prototype setter and leaves no own key behind.
\<close>

lemma flatten_prototype_setter:
  "extractTableData h (JObj [(''__proto__'', JNull), (''a'', JObj [(''b'', JNum 1)])])
     = Inr [JObj [(''a.b'', JNum 1)]]"
  by code_simp

section \<open>Properties: searching\<close>




lemma searchTable_null_row:
  "trim t \<noteq> [] \<Longrightarrow> JNull \<in> set rows
     \<Longrightarrow> searchTable h t rows = Inl (nullPropertyError h ''values'')"
  by (auto simp: searchTable_def trim_def)








section \<open>Properties: the column width plan\<close>

subsection \<open>The error of rounding\<close>

lemma ilog2_bounds:
  "1 \<le> n \<Longrightarrow> 0 \<le> ilog2 n \<and> 2 ^ nat (ilog2 n) \<le> n \<and> n < 2 * 2 ^ nat (ilog2 n)"
proof (induction n rule: ilog2.induct)
  case (1 n)
  show ?case
  proof (cases "n < 2")
    case True
    then have "n = 1" using "1.prems" by simp
    then show ?thesis by (simp add: ilog2.simps)
  next
    case False
    then have h: "1 \<le> n div 2" by simp
    have u: "ilog2 n = 1 + ilog2 (n div 2)"
      using False by (subst ilog2.simps) simp
    from "1.IH" [OF False h]
    have ih: "0 \<le> ilog2 (n div 2)" "2 ^ nat (ilog2 (n div 2)) \<le> n div 2"
      "n div 2 < 2 * 2 ^ nat (ilog2 (n div 2))"
      by simp_all
    have n1: "nat (1 + ilog2 (n div 2)) = Suc (nat (ilog2 (n div 2)))"
      using ih(1) by simp
    have "2 * (n div 2) \<le> n" by simp
    moreover have "n < 2 * (n div 2) + 2" by simp
    ultimately show ?thesis
      using ih by (simp add: u n1)
  qed
qed


lemma exponentOf_bounds:
  assumes "0 < x"
  shows "power_int 2 (exponentOf x) \<le> x" "x < power_int 2 (exponentOf x + 1)"
proof -
  obtain p q where pq: "quotient_of x = (p, q)"
    by (cases "quotient_of x") auto
  have q: "0 < q" using pq by (rule quotient_of_denom_pos)
  have x: "x = of_int p / of_int q" using pq by (rule quotient_of_div)
  have p: "0 < p"
    using assms q by (simp add: x zero_less_divide_iff)
  let ?a = "ilog2 p" and ?b = "ilog2 q"
  let ?c = "?a - ?b"
  have a: "0 \<le> ?a" "2 ^ nat ?a \<le> p" "p < 2 * 2 ^ nat ?a"
    using ilog2_bounds [of p] p by simp_all
  have b: "0 \<le> ?b" "2 ^ nat ?b \<le> q" "q < 2 * 2 ^ nat ?b"
    using ilog2_bounds [of q] q by simp_all
  have pa: "(power_int 2 ?a :: rat) \<le> of_int p" "(of_int p :: rat) < 2 * power_int 2 ?a"
  proof -
    have "(of_int (2 ^ nat ?a) :: rat) \<le> of_int p"
      using a(2) by (simp only: of_int_le_iff)
    then show "(power_int 2 ?a :: rat) \<le> of_int p"
      using a(1) by (simp add: power_int_def)
    have "(of_int p :: rat) < of_int (2 * 2 ^ nat ?a)"
      using a(3) by (simp only: of_int_less_iff)
    then show "(of_int p :: rat) < 2 * power_int 2 ?a"
      using a(1) by (simp add: power_int_def)
  qed
  have qb: "(power_int 2 ?b :: rat) \<le> of_int q" "(of_int q :: rat) < 2 * power_int 2 ?b"
  proof -
    have "(of_int (2 ^ nat ?b) :: rat) \<le> of_int q"
      using b(2) by (simp only: of_int_le_iff)
    then show "(power_int 2 ?b :: rat) \<le> of_int q"
      using b(1) by (simp add: power_int_def)
    have "(of_int q :: rat) < of_int (2 * 2 ^ nat ?b)"
      using b(3) by (simp only: of_int_less_iff)
    then show "(of_int q :: rat) < 2 * power_int 2 ?b"
      using b(1) by (simp add: power_int_def)
  qed
  have qpos: "(0 :: rat) < of_int q" using q by simp
  have bpos: "(0 :: rat) < power_int 2 ?b" by simp
  have c: "(power_int 2 ?c :: rat) = power_int 2 ?a / power_int 2 ?b"
    by (simp add: power_int_diff)
  have low: "(power_int 2 (?c - 1) :: rat) \<le> x"
  proof -
    have "(power_int 2 (?c - 1) :: rat) = power_int 2 ?a / (2 * power_int 2 ?b)"
      by (simp add: power_int_diff c)
    also have "\<dots> \<le> of_int p / (2 * power_int 2 ?b)"
      using pa(1) bpos by (simp add: divide_right_mono)
    also have "\<dots> \<le> of_int p / of_int q"
      using qb(2) qpos p by (intro frac_le) simp_all
    finally show ?thesis by (simp add: x)
  qed
  have high: "x < power_int 2 (?c + 1)"
  proof -
    have "x = of_int p / of_int q" by (rule x)
    also have "\<dots> < 2 * power_int 2 ?a / of_int q"
      using pa(2) qpos by (simp add: divide_strict_right_mono)
    also have "\<dots> \<le> 2 * power_int 2 ?a / power_int 2 ?b"
      using qb(1) bpos by (intro frac_le) simp_all
    also have "\<dots> = power_int 2 (?c + 1)"
      by (simp add: power_int_add c)
    finally show ?thesis .
  qed
  have e: "exponentOf x = (if power_int 2 ?c \<le> x then ?c else ?c - 1)"
    by (simp add: exponentOf_def pq Let_def)
  show "power_int 2 (exponentOf x) \<le> x"
    using low by (simp add: e)
  show "x < power_int 2 (exponentOf x + 1)"
    using high by (auto simp: e)
qed

lemma roundHalfEven_error: "\<bar>of_int (roundHalfEven y) - y\<bar> \<le> 1 / 2"
proof -
  define f where "f = \<lfloor>y\<rfloor>"
  have lo: "of_int f \<le> y" and hi: "y < of_int f + 1"
    unfolding f_def by linarith+
  have "roundHalfEven y
      = (if y - of_int f < 1 / 2 then f
         else if 1 / 2 < y - of_int f then f + 1 else if even f then f else f + 1)"
    by (simp add: roundHalfEven_def Let_def f_def)
  then show ?thesis
    using lo hi by (auto simp: abs_if)
qed

lemma roundDouble_error: "\<bar>roundDouble x - x\<bar> \<le> \<bar>x\<bar> / 2 ^ 53"
proof (cases "x = 0")
  case True
  then show ?thesis by (simp add: roundDouble_def)
next
  case False
  let ?e = "exponentOf \<bar>x\<bar>"
  let ?q = "power_int 2 (?e - 52) :: rat"
  have qpos: "0 < ?q" by simp
  have r: "roundDouble x = of_int (roundHalfEven (x / ?q)) * ?q"
    using False by (simp add: roundDouble_def Let_def)
  have "\<bar>of_int (roundHalfEven (x / ?q)) - x / ?q\<bar> * ?q \<le> 1 / 2 * ?q"
    using roundHalfEven_error [of "x / ?q"] qpos by (intro mult_right_mono) simp_all
  moreover have "\<bar>of_int (roundHalfEven (x / ?q)) - x / ?q\<bar> * ?q = \<bar>roundDouble x - x\<bar>"
  proof -
    have "\<bar>of_int (roundHalfEven (x / ?q)) - x / ?q\<bar> * ?q
        = \<bar>(of_int (roundHalfEven (x / ?q)) - x / ?q) * ?q\<bar>"
      using qpos by (simp add: abs_mult)
    also have "(of_int (roundHalfEven (x / ?q)) - x / ?q) * ?q = roundDouble x - x"
      using qpos by (simp add: r left_diff_distrib)
    finally show ?thesis .
  qed
  moreover have "1 / 2 * ?q = power_int 2 ?e / 2 ^ 53"
    by (simp add: power_int_diff)
  moreover have "power_int 2 ?e / 2 ^ 53 \<le> \<bar>x\<bar> / 2 ^ 53"
    using exponentOf_bounds(1) [of "\<bar>x\<bar>"] False by (simp add: divide_right_mono)
  ultimately show ?thesis by simp
qed

lemma roundDouble_positive: "0 < roundDouble y \<Longrightarrow> 0 < y"
proof (rule ccontr)
  assume pos: "0 < roundDouble y" and "\<not> 0 < y"
  then have y: "y \<le> 0" by simp
  have "roundDouble y - y \<le> \<bar>roundDouble y - y\<bar>"
    by (rule abs_ge_self)
  also have "\<dots> \<le> \<bar>y\<bar> / 2 ^ 53"
    by (rule roundDouble_error)
  finally have "roundDouble y \<le> y - y / 2 ^ 53"
    using y by simp
  also have "\<dots> \<le> 0"
    using y by (simp add: field_simps)
  finally show False using pos by simp
qed

lemma roundDouble_upper: "0 \<le> y \<Longrightarrow> roundDouble y \<le> y * (1 + 1 / 2 ^ 53)"
proof -
  assume y: "0 \<le> y"
  have "roundDouble y - y \<le> \<bar>roundDouble y - y\<bar>"
    by (rule abs_ge_self)
  also have "\<dots> \<le> \<bar>y\<bar> / 2 ^ 53"
    by (rule roundDouble_error)
  finally show ?thesis
    using y by (simp add: field_simps)
qed


subsection \<open>The plan\<close>

lemma optimalWidth_floor: "minColumnWidth \<le> optimalWidth b hw cw"
  by (simp add: optimalWidth_def)

lemma idealWidths_floor: "w \<in> set (idealWidths columns) \<Longrightarrow> minColumnWidth \<le> w"
  by (auto simp: idealWidths_def optimalWidth_floor)

lemma sum_list_ge_floor:
  "ws \<noteq> [] \<Longrightarrow> \<forall>w \<in> set ws. minColumnWidth \<le> w \<Longrightarrow> minColumnWidth \<le> sum_list ws"
proof (induction ws)
  case Nil
  then show ?case by simp
next
  case (Cons w ws)
  then show ?case
    by (cases ws) (auto simp: minColumnWidth_def)
qed

text \<open>The floors of the rounded products stay below the exact sum, but for the error.\<close>

lemma sum_list_rounded_floor_le:
  assumes "0 \<le> r"
  shows "\<forall>w \<in> set ws. 0 \<le> w \<Longrightarrow>
    (of_int (sum_list (map (\<lambda>w. \<lfloor>roundDouble (of_int w * r)\<rfloor>) ws)) :: rat)
      \<le> of_int (sum_list ws) * r * (1 + 1 / 2 ^ 53)"
proof (induction ws)
  case Nil
  then show ?case by simp
next
  case (Cons w ws)
  have w: "(0 :: rat) \<le> of_int w * r"
    using Cons.prems assms by simp
  have "(of_int \<lfloor>roundDouble (of_int w * r)\<rfloor> :: rat) \<le> roundDouble (of_int w * r)"
    by (rule of_int_floor_le)
  also have "\<dots> \<le> of_int w * r * (1 + 1 / 2 ^ 53)"
    using w by (rule roundDouble_upper)
  finally have "(of_int \<lfloor>roundDouble (of_int w * r)\<rfloor> :: rat)
        + of_int (sum_list (map (\<lambda>w. \<lfloor>roundDouble (of_int w * r)\<rfloor>) ws))
      \<le> of_int w * r * (1 + 1 / 2 ^ 53) + of_int (sum_list ws) * r * (1 + 1 / 2 ^ 53)"
    using Cons by (intro add_mono) simp_all
  then show ?case
    by (simp add: distrib_right)
qed

lemma error_below_one:
  assumes "0 < a" "a < 2 ^ 31"
  shows "(of_int a :: rat) * (1 + 1 / 2 ^ 53) * (1 + 1 / 2 ^ 53) < of_int a + 1"
proof -
  have sq: "((1 :: rat) + 1 / 2 ^ 53) * (1 + 1 / 2 ^ 53) \<le> 1 + 3 / 2 ^ 53"
    by simp
  have "(of_int a :: rat) < of_int (2 ^ 31)"
    using assms(2) by (simp only: of_int_less_iff)
  then have a: "(of_int a :: rat) < 2 ^ 31" by simp
  have pos: "(0 :: rat) < of_int a" using assms(1) by simp
  have "(of_int a :: rat) * ((1 + 1 / 2 ^ 53) * (1 + 1 / 2 ^ 53)) \<le> of_int a * (1 + 3 / 2 ^ 53)"
    using sq pos by (intro mult_left_mono) simp_all
  also have "\<dots> < of_int a + 1"
    using a by (simp add: field_simps)
  finally show ?thesis by (simp add: mult.assoc)
qed

lemma scaled_sum:
  assumes "ws \<noteq> []" "\<forall>w \<in> set ws. minColumnWidth \<le> w" "sum_list ws > avail"
    and "avail < 2 ^ 31"
    and "\<forall>w \<in> set ws.
          max minColumnWidth
            \<lfloor>roundDouble (of_int w * roundDouble (of_int avail / of_int (sum_list ws)))\<rfloor>
            \<noteq> minColumnWidth"
  shows "sum_list (map (\<lambda>w. max minColumnWidth
            \<lfloor>roundDouble (of_int w * roundDouble (of_int avail / of_int (sum_list ws)))\<rfloor>) ws)
           \<le> avail"
proof -
  let ?x = "(of_int avail / of_int (sum_list ws) :: rat)"
  let ?r = "roundDouble ?x"
  let ?eps = "(1 + 1 / 2 ^ 53 :: rat)"
  have tpos: "0 < sum_list ws"
    using sum_list_ge_floor [OF assms(1,2)] by (simp add: minColumnWidth_def)
  have wpos: "\<forall>w \<in> set ws. 0 \<le> w"
    using assms(2) by (auto simp: minColumnWidth_def)
  have above: "\<forall>w \<in> set ws. minColumnWidth < \<lfloor>roundDouble (of_int w * ?r)\<rfloor>"
  proof
    fix w
    assume "w \<in> set ws"
    with assms(5) have "max minColumnWidth \<lfloor>roundDouble (of_int w * ?r)\<rfloor> \<noteq> minColumnWidth"
      by blast
    then show "minColumnWidth < \<lfloor>roundDouble (of_int w * ?r)\<rfloor>"
      by (simp add: max_def split: if_splits)
  qed
  have same: "map (\<lambda>w. max minColumnWidth \<lfloor>roundDouble (of_int w * ?r)\<rfloor>) ws
      = map (\<lambda>w. \<lfloor>roundDouble (of_int w * ?r)\<rfloor>) ws"
  proof (rule map_cong [OF refl])
    fix w
    assume "w \<in> set ws"
    with above have "minColumnWidth < \<lfloor>roundDouble (of_int w * ?r)\<rfloor>"
      by blast
    then show "max minColumnWidth \<lfloor>roundDouble (of_int w * ?r)\<rfloor>
        = \<lfloor>roundDouble (of_int w * ?r)\<rfloor>"
      by (simp add: max_def)
  qed
  obtain w0 where w0: "w0 \<in> set ws"
    using assms(1) by (cases ws) auto
  have "0 < \<lfloor>roundDouble (of_int w0 * ?r)\<rfloor>"
    using above w0 by (auto simp: minColumnWidth_def)
  then have "0 < roundDouble (of_int w0 * ?r)"
    by (simp add: floor_less_iff less_floor_iff)
  then have "(0 :: rat) < of_int w0 * ?r"
    by (rule roundDouble_positive)
  moreover have "(0 :: rat) < of_int w0"
    using assms(2) w0 by (auto simp: minColumnWidth_def)
  ultimately have rpos: "0 < ?r"
    by (simp add: zero_less_mult_iff)
  then have xpos: "0 < ?x"
    by (rule roundDouble_positive)
  then have apos: "0 < avail"
    using tpos by (simp add: zero_less_divide_iff)
  have "(of_int (sum_list (map (\<lambda>w. \<lfloor>roundDouble (of_int w * ?r)\<rfloor>) ws)) :: rat)
      \<le> of_int (sum_list ws) * ?r * ?eps"
    using rpos wpos by (intro sum_list_rounded_floor_le [rule_format]) simp_all
  also have "\<dots> \<le> of_int (sum_list ws) * (?x * ?eps) * ?eps"
  proof -
    have "?r \<le> ?x * ?eps"
      using xpos by (intro roundDouble_upper) simp
    then show ?thesis
      using tpos by (intro mult_right_mono mult_left_mono) simp_all
  qed
  also have "\<dots> = of_int avail * ?eps * ?eps"
    using tpos by simp
  also have "\<dots> < of_int avail + 1"
    using apos assms(4) by (rule error_below_one)
  finally have "(of_int (sum_list (map (\<lambda>w. \<lfloor>roundDouble (of_int w * ?r)\<rfloor>) ws)) :: rat)
      < of_int (avail + 1)"
    by simp
  then have "sum_list (map (\<lambda>w. \<lfloor>roundDouble (of_int w * ?r)\<rfloor>) ws) < avail + 1"
    by (simp only: of_int_less_iff)
  then have "sum_list (map (\<lambda>w. \<lfloor>roundDouble (of_int w * ?r)\<rfloor>) ws) \<le> avail"
    by simp
  then show ?thesis
    by (simp only: same)
qed

text \<open>
  C3, as the code has it, the ratio and its products rounded to doubles. For a table
  with at least one column in a container narrower than \<open>2\<^sup>3\<^sup>1\<close> pixels, every
  assigned width is at least \<^const>\<open>minColumnWidth\<close>, and
  the assigned widths sum to at most the available width (the container width minus 60)
  unless some column sits at \<^const>\<open>minColumnWidth\<close>; ideal widths that fit are
  assigned unchanged.
\<close>

theorem adjustColumnWidths_plan:
  assumes "columns \<noteq> []" "containerWidth < 2 ^ 31"
  shows "\<exists>adjusted. adjustColumnWidths (idealWidths columns) containerWidth = Some adjusted
      \<and> length adjusted = length columns
      \<and> (\<forall>w \<in> set adjusted. minColumnWidth \<le> w)
      \<and> (sum_list adjusted \<le> containerWidth - 60 \<or> (\<exists>w \<in> set adjusted. w = minColumnWidth))
      \<and> (sum_list (idealWidths columns) \<le> containerWidth - 60 \<longrightarrow> adjusted = idealWidths columns)"
proof -
  let ?ws = "idealWidths columns"
  let ?r = "roundDouble (of_int (containerWidth - 60) / of_int (sum_list ?ws))"
  let ?adj = "map (\<lambda>w. max minColumnWidth \<lfloor>roundDouble (of_int w * ?r)\<rfloor>) ?ws"
  have ne: "?ws \<noteq> []"
    using assms(1) by (simp add: idealWidths_def)
  have len: "length ?ws = length columns"
    by (simp add: idealWidths_def)
  have fl: "\<forall>w \<in> set ?ws. minColumnWidth \<le> w"
    using idealWidths_floor by blast
  have small: "containerWidth - 60 < 2 ^ 31"
    using assms(2) by simp
  show ?thesis
  proof (cases "sum_list ?ws \<le> containerWidth - 60")
    case True
    have "adjustColumnWidths ?ws containerWidth = Some ?ws"
      using True ne by (simp add: adjustColumnWidths_def Let_def)
    then show ?thesis
      using len fl True by blast
  next
    case False
    have a: "adjustColumnWidths ?ws containerWidth = Some ?adj"
      using False ne by (simp add: adjustColumnWidths_def Let_def)
    have d: "sum_list ?adj \<le> containerWidth - 60 \<or> (\<exists>w \<in> set ?adj. w = minColumnWidth)"
    proof (cases "\<exists>w \<in> set ?adj. w = minColumnWidth")
      case True
      then show ?thesis by (rule disjI2)
    next
      case none: False
      have "\<forall>w \<in> set ?ws. max minColumnWidth \<lfloor>roundDouble (of_int w * ?r)\<rfloor> \<noteq> minColumnWidth"
      proof
        fix w
        assume "w \<in> set ?ws"
        then have "max minColumnWidth \<lfloor>roundDouble (of_int w * ?r)\<rfloor> \<in> set ?adj"
          by (simp only: set_map) (rule imageI)
        with none show "max minColumnWidth \<lfloor>roundDouble (of_int w * ?r)\<rfloor> \<noteq> minColumnWidth"
          by blast
      qed
      moreover have "containerWidth - 60 < sum_list ?ws"
        using False by simp
      ultimately have "sum_list ?adj \<le> containerWidth - 60"
        using scaled_sum [OF ne fl _ small] by blast
      then show ?thesis by (rule disjI1)
    qed
    have l: "length ?adj = length columns"
      by (simp only: length_map len)
    have f: "\<forall>w \<in> set ?adj. minColumnWidth \<le> w"
    proof
      fix w
      assume "w \<in> set ?adj"
      then obtain v where "w = max minColumnWidth \<lfloor>roundDouble (of_int v * ?r)\<rfloor>"
        by (auto simp only: set_map)
      then show "minColumnWidth \<le> w"
        by (simp only: max.cobounded1)
    qed
    show ?thesis
      using a l f d False by blast
  qed
qed

lemma sample_idealWidths: "idealWidths [(False, 50, 60), (False, 400, 20)] = [100, 300]"
  by (simp add: idealWidths_def optimalWidth_def minColumnWidth_def maxColumnWidth_def)

lemma sample_floors:
  "\<lfloor>roundDouble (300 * roundDouble (390 / 400))\<rfloor> = 292"
  "\<lfloor>roundDouble (100 * roundDouble (390 / 400))\<rfloor> = 97"
  by code_simp+

lemma sample_plan:
  "adjustColumnWidths (idealWidths [(False, 50, 60), (False, 400, 20)]) 450 = Some [100, 292]"
  using sample_floors
  by (simp add: sample_idealWidths adjustColumnWidths_def minColumnWidth_def)

text \<open>
  The theorem at two columns of ideal widths 100 and 300, in a container of 450 pixels
  and in one of 460.
\<close>

theorem adjustColumnWidths_plan_witness:
  "adjustColumnWidths (idealWidths [(False, 50, 60), (False, 400, 20)]) 450 = Some [100, 292]
   \<and> adjustColumnWidths (idealWidths [(False, 50, 60), (False, 400, 20)]) 460
       = Some (idealWidths [(False, 50, 60), (False, 400, 20)])"
proof -
  have ne: "[(False, 50::int, 60::int), (False, 400, 20)] \<noteq> []"
    by simp
  have s: "(450 :: int) < 2 ^ 31" "(460 :: int) < 2 ^ 31"
    by simp_all
  show ?thesis
    using adjustColumnWidths_plan [OF ne s(1)] adjustColumnWidths_plan [OF ne s(2)]
      sample_plan
    by (auto simp: sample_idealWidths)
qed

text \<open>
  C3 as stated fails: in a container of 450 pixels the two columns get 100 (raised from
  97 to the floor) and 292, which sum to 392 and exceed the 390 available, while the
  second column is not at the floor.
\<close>

theorem adjustColumnWidths_floor_breaks_sum:
  "adjustColumnWidths (idealWidths [(False, 50, 60), (False, 400, 20)]) 450 = Some [100, 292]
   \<and> sum_list [100, 292 :: int] > 450 - 60
   \<and> (292 :: int) \<noteq> minColumnWidth"
  using sample_plan by (simp add: minColumnWidth_def)

text \<open>
  Rounding matters: at the ratio \<open>410 / 500\<close> a width of 150 is scaled to 122, one pixel
  less than the floor of the exact product 123.
\<close>

lemma rounded_product_sample:
  "\<lfloor>roundDouble (150 * roundDouble (410 / 500))\<rfloor> = 122 \<and> \<lfloor>(150 :: rat) * (410 / 500)\<rfloor> = 123"
  by code_simp

section \<open>Properties: hexadecimal and binary display\<close>

lemma half_not_integer: "\<not> isInteger (1 / 2)"
  unfolding isInteger_def by code_simp

text \<open>
  C8 at the number 0.5. \<^verbatim>\<open>formatAsHex\<close> tests only \<^verbatim>\<open>typeof value === 'number'\<close> and
  converts the fraction in radix 16 behind the prefix \<^verbatim>\<open>0x\<close>; \<^verbatim>\<open>formatAsBinary\<close>
  also tests \<^verbatim>\<open>Number.isInteger\<close> and returns the decimal string of the number.
\<close>

theorem formatAsHex_fraction:
  "\<forall>h. formatAsHex h (Some (JNum (1 / 2))) = ''0x'' @ toUpperCase (numberToStringRadix h 16 (1 / 2))
      \<and> formatAsBinary h (Some (JNum (1 / 2))) = numberToString h (1 / 2)"
  using half_not_integer
  by (simp add: formatAsHex_def formatAsBinary_def numberToRadix_def)

text \<open>
  On integers of magnitude below \<open>2\<^sup>5\<^sup>3\<close> both conversions give the prefix and the
  digits in the radix (capital letters in radix 16); a value that is not a number passes
  through as its string.
\<close>

lemma isInteger_of_int: "isInteger (of_int n)"
  by (simp add: isInteger_def)

lemma small_of_int: "\<bar>n\<bar> < 2 ^ 53 \<Longrightarrow> \<bar>of_int n :: rat\<bar> < 2 ^ 53"
proof -
  assume "\<bar>n\<bar> < 2 ^ 53"
  then have "(of_int \<bar>n\<bar> :: rat) < of_int (2 ^ 53)"
    by (simp only: of_int_less_iff)
  then show ?thesis
    by simp
qed

lemma formatAsHex_integer:
  "\<bar>n\<bar> < 2 ^ 53 \<Longrightarrow>
   formatAsHex h (Some (JNum (of_int n)))
     = ''0x'' @ toUpperCase ((if n < 0 then ''-'' else []) @ digitsOf 16 \<bar>n\<bar>)"
  using small_of_int [of n]
  by (simp add: formatAsHex_def numberToRadix_def isInteger_of_int)

lemma formatAsBinary_integer:
  "\<bar>n\<bar> < 2 ^ 53 \<Longrightarrow>
   formatAsBinary h (Some (JNum (of_int n)))
     = ''0b'' @ (if n < 0 then ''-'' else []) @ digitsOf 2 \<bar>n\<bar>"
  using small_of_int [of n]
  by (simp add: formatAsBinary_def numberToRadix_def isInteger_of_int)

lemma format_radix_non_number:
  "(\<forall>n. value \<noteq> Some (JNum n)) \<Longrightarrow>
   formatAsHex h value = String_of h value \<and> formatAsBinary h value = String_of h value"
  by (auto simp: formatAsHex_def formatAsBinary_def split: option.splits json.splits)

lemma sample_hex: "formatAsHex sampleHost (Some (JNum 255)) = ''0xFF''"
  unfolding formatAsHex_def toUpperCase_def by code_simp

section \<open>Properties: the number-time display\<close>

lemma jsRem_nonneg:
  assumes "0 \<le> v" "0 < m"
  shows "jsRem v m = v - m * of_int \<lfloor>v / m\<rfloor>" "0 \<le> jsRem v m" "jsRem v m < m"
proof -
  have q: "0 \<le> v / m" using assms by simp
  then show r: "jsRem v m = v - m * of_int \<lfloor>v / m\<rfloor>"
    by (simp add: jsRem_def truncRat_def)
  have "of_int \<lfloor>v / m\<rfloor> * m \<le> v"
    using of_int_floor_le [of "v / m"] assms(2) by (simp only: pos_le_divide_eq)
  then show "0 \<le> jsRem v m" by (simp add: r mult.commute)
  have "v < (of_int \<lfloor>v / m\<rfloor> + 1) * m"
    using floor_correct [of "v / m"] assms(2) by (simp add: pos_divide_less_eq)
  then show "jsRem v m < m" by (simp add: r algebra_simps)
qed

lemma clock_fields:
  assumes "0 < v" "v < 86400"
  shows "0 \<le> \<lfloor>v / 3600\<rfloor> \<and> \<lfloor>v / 3600\<rfloor> < 24
       \<and> 0 \<le> \<lfloor>jsRem v 3600 / 60\<rfloor> \<and> \<lfloor>jsRem v 3600 / 60\<rfloor> < 60
       \<and> 0 \<le> \<lfloor>jsRem v 60\<rfloor> \<and> \<lfloor>jsRem v 60\<rfloor> < 60"
proof -
  have v: "0 \<le> v" using assms by simp
  have "v / 3600 < 24" using assms by simp
  then have h: "\<lfloor>v / 3600\<rfloor> < 24" by (simp add: floor_less_iff)
  have h0: "0 \<le> \<lfloor>v / 3600\<rfloor>" using v by simp
  have "jsRem v 3600 / 60 < 60" "0 \<le> jsRem v 3600 / 60"
    using jsRem_nonneg(2,3) [OF v, of 3600] by simp_all
  then have m: "\<lfloor>jsRem v 3600 / 60\<rfloor> < 60" "0 \<le> \<lfloor>jsRem v 3600 / 60\<rfloor>"
    by (simp_all add: floor_less_iff)
  have "jsRem v 60 < 60" "0 \<le> jsRem v 60"
    using jsRem_nonneg(2,3) [OF v, of 60] by simp_all
  then have s: "\<lfloor>jsRem v 60\<rfloor> < 60" "0 \<le> \<lfloor>jsRem v 60\<rfloor>"
    by (simp_all add: floor_less_iff)
  show ?thesis using h h0 m s by simp
qed

lemma formatAsTime_3661: "formatAsTime h (Some (JNum 3661)) = ''01:01:01''"
  unfolding formatAsTime_def by code_simp


lemma dateText_cases:
  "(newDate ms = None \<longrightarrow> dateText h v (newDate ms) = toStr h (JNum v))
   \<and> (\<forall>t. newDate ms = Some t \<longrightarrow> dateText h v (newDate ms) = toLocaleString h t)"
  by (simp add: dateText_def)

lemma newDate_valid: "newDate ms \<noteq> None \<longleftrightarrow> \<bar>ms\<bar> \<le> 8640000000000000"
  by (simp add: newDate_def)

text \<open>
  C6, as the code has it. A number strictly between \<open>10\<^sup>9\<close> and \<open>10\<^sup>1\<^sup>0\<close> is a
  timestamp in seconds, multiplied by 1000 in doubles; one from \<open>10\<^sup>1\<^sup>2\<close> up to \<open>10\<^sup>1\<^sup>3\<close> is a timestamp in
  milliseconds; one strictly between 0 and 86400 is rendered as hours, minutes and
  seconds of a day, two digits each; a negative number is returned as its literal
  string (the guard \<^verbatim>\<open>value >= 0\<close>); every other number except \<open>10\<^sup>9\<close> itself, about
  which nothing is said here, is a timestamp in milliseconds. A timestamp is rendered by
  the locale when the date is valid, which it is up to \<open>8.64 \<times> 10\<^sup>1\<^sup>5\<close> milliseconds, and
  as the literal string of the number otherwise. The number 3661 gives \<^verbatim>\<open>01:01:01\<close>.
\<close>

theorem formatAsTime_branches:
  "(1000000000 < v \<and> v < 10000000000 \<longrightarrow>
      formatAsTime h (Some (JNum v)) = dateText h v (newDate (roundDouble (v * 1000))))
   \<and> (1000000000000 \<le> v \<and> v < 10000000000000 \<longrightarrow>
      formatAsTime h (Some (JNum v)) = dateText h v (newDate v))
   \<and> (0 < v \<and> v < 86400 \<longrightarrow>
      formatAsTime h (Some (JNum v))
        = pad2 h \<lfloor>v / 3600\<rfloor> @ '':'' @ pad2 h \<lfloor>jsRem v 3600 / 60\<rfloor> @ '':''
            @ pad2 h \<lfloor>jsRem v 60\<rfloor>
      \<and> 0 \<le> \<lfloor>v / 3600\<rfloor> \<and> \<lfloor>v / 3600\<rfloor> < 24
      \<and> 0 \<le> \<lfloor>jsRem v 3600 / 60\<rfloor> \<and> \<lfloor>jsRem v 3600 / 60\<rfloor> < 60
      \<and> 0 \<le> \<lfloor>jsRem v 60\<rfloor> \<and> \<lfloor>jsRem v 60\<rfloor> < 60)
   \<and> (v = 0 \<or> (86400 \<le> v \<and> v < 1000000000) \<or> (10000000000 \<le> v \<and> v < 1000000000000)
        \<or> 10000000000000 \<le> v \<longrightarrow>
      formatAsTime h (Some (JNum v)) = dateText h v (newDate v))
   \<and> (v < 0 \<longrightarrow> formatAsTime h (Some (JNum v)) = toStr h (JNum v))
   \<and> (newDate ms = None \<longrightarrow> dateText h v (newDate ms) = toStr h (JNum v))
   \<and> (\<forall>t. newDate ms = Some t \<longrightarrow> dateText h v (newDate ms) = toLocaleString h t)
   \<and> (newDate ms \<noteq> None \<longleftrightarrow> \<bar>ms\<bar> \<le> 8640000000000000)
   \<and> formatAsTime h (Some (JNum 3661)) = ''01:01:01''"
proof (intro conjI)
  show "1000000000 < v \<and> v < 10000000000 \<longrightarrow>
      formatAsTime h (Some (JNum v)) = dateText h v (newDate (roundDouble (v * 1000)))"
    by (simp add: formatAsTime_def)
  show "1000000000000 \<le> v \<and> v < 10000000000000 \<longrightarrow>
      formatAsTime h (Some (JNum v)) = dateText h v (newDate v)"
    by (simp add: formatAsTime_def)
  show "0 < v \<and> v < 86400 \<longrightarrow>
      formatAsTime h (Some (JNum v))
        = pad2 h \<lfloor>v / 3600\<rfloor> @ '':'' @ pad2 h \<lfloor>jsRem v 3600 / 60\<rfloor> @ '':''
            @ pad2 h \<lfloor>jsRem v 60\<rfloor>
      \<and> 0 \<le> \<lfloor>v / 3600\<rfloor> \<and> \<lfloor>v / 3600\<rfloor> < 24
      \<and> 0 \<le> \<lfloor>jsRem v 3600 / 60\<rfloor> \<and> \<lfloor>jsRem v 3600 / 60\<rfloor> < 60
      \<and> 0 \<le> \<lfloor>jsRem v 60\<rfloor> \<and> \<lfloor>jsRem v 60\<rfloor> < 60"
  proof
    assume a: "0 < v \<and> v < 86400"
    then have "formatAsTime h (Some (JNum v))
        = pad2 h \<lfloor>v / 3600\<rfloor> @ '':'' @ pad2 h \<lfloor>jsRem v 3600 / 60\<rfloor> @ '':''
            @ pad2 h \<lfloor>jsRem v 60\<rfloor>"
      by (simp add: formatAsTime_def Let_def)
    then show "formatAsTime h (Some (JNum v))
        = pad2 h \<lfloor>v / 3600\<rfloor> @ '':'' @ pad2 h \<lfloor>jsRem v 3600 / 60\<rfloor> @ '':''
            @ pad2 h \<lfloor>jsRem v 60\<rfloor>
      \<and> 0 \<le> \<lfloor>v / 3600\<rfloor> \<and> \<lfloor>v / 3600\<rfloor> < 24
      \<and> 0 \<le> \<lfloor>jsRem v 3600 / 60\<rfloor> \<and> \<lfloor>jsRem v 3600 / 60\<rfloor> < 60
      \<and> 0 \<le> \<lfloor>jsRem v 60\<rfloor> \<and> \<lfloor>jsRem v 60\<rfloor> < 60"
      using clock_fields [of v] a by blast
  qed
  show "v = 0 \<or> (86400 \<le> v \<and> v < 1000000000) \<or> (10000000000 \<le> v \<and> v < 1000000000000)
        \<or> 10000000000000 \<le> v \<longrightarrow>
      formatAsTime h (Some (JNum v)) = dateText h v (newDate v)"
    by (auto simp: formatAsTime_def)
  show "v < 0 \<longrightarrow> formatAsTime h (Some (JNum v)) = toStr h (JNum v)"
    by (simp add: formatAsTime_def)
  show "newDate ms = None \<longrightarrow> dateText h v (newDate ms) = toStr h (JNum v)"
    "\<forall>t. newDate ms = Some t \<longrightarrow> dateText h v (newDate ms) = toLocaleString h t"
    using dateText_cases [of ms h v] by blast+
  show "newDate ms \<noteq> None \<longleftrightarrow> \<bar>ms\<bar> \<le> 8640000000000000"
    by (rule newDate_valid)
  show "formatAsTime h (Some (JNum 3661)) = ''01:01:01''"
    by (rule formatAsTime_3661)
qed

lemma sample_dates:
  "newDate (roundDouble (2000000000 * 1000)) = Some 2000000000000"
  "newDate 9000000000000000 = None"
  "newDate (- 5) = Some (- 5)"
  unfolding newDate_def truncRat_def roundDouble_def exponentOf_def roundHalfEven_def
  by code_simp+

lemma sample_literals:
  "toStr sampleHost (JNum (- 5)) = ''-5''"
  "toStr sampleHost (JNum 9000000000000000) = ''9000000000000000''"
  by code_simp+

text \<open>
  The theorem at a timestamp in seconds, at a number beyond the range of dates, at a
  negative number and at 3661.
\<close>

theorem formatAsTime_branches_witness:
  "formatAsTime sampleHost (Some (JNum 2000000000)) = toLocaleString sampleHost 2000000000000
   \<and> formatAsTime sampleHost (Some (JNum 9000000000000000)) = ''9000000000000000''
   \<and> formatAsTime sampleHost (Some (JNum (- 5))) = ''-5''
   \<and> formatAsTime sampleHost (Some (JNum 3661)) = ''01:01:01''
   \<and> \<lfloor>3661 / 3600 :: rat\<rfloor> < 24"
proof -
  have a: "formatAsTime sampleHost (Some (JNum 2000000000)) = toLocaleString sampleHost 2000000000000"
    using formatAsTime_branches [of 2000000000 sampleHost "roundDouble (2000000000 * 1000)"] sample_dates(1)
    by simp
  have b: "formatAsTime sampleHost (Some (JNum 9000000000000000)) = ''9000000000000000''"
    using formatAsTime_branches [of 9000000000000000 sampleHost 9000000000000000]
      sample_dates(2) sample_literals(2)
    by simp
  have c: "formatAsTime sampleHost (Some (JNum (- 5))) = ''-5''"
    using formatAsTime_branches [of "- 5" sampleHost 0] sample_literals(1)
    by simp
  have r: "(0::rat) < 3661 \<and> (3661::rat) < 86400"
    by simp
  have d: "formatAsTime sampleHost (Some (JNum 3661)) = ''01:01:01'' \<and> \<lfloor>3661 / 3600 :: rat\<rfloor> < 24"
    using formatAsTime_branches [of 3661 sampleHost 0] r
    by blast
  show ?thesis
    using a b c d by simp
qed

text \<open>
  C6 as stated fails on a negative number: -5 lies in none of the three ranges and is a
  valid date in milliseconds, so the claim has it rendered as a date, but the code
  returns the literal string.
\<close>

theorem formatAsTime_negative:
  "(\<forall>h. formatAsTime h (Some (JNum (- 5))) = toStr h (JNum (- 5))
        \<and> formatAsTime_as_claimed h (- 5) = toLocaleString h (- 5))
   \<and> formatAsTime sampleHost (Some (JNum (- 5))) \<noteq> formatAsTime_as_claimed sampleHost (- 5)"
proof -
  have l: "toLocaleString sampleHost (- 5) \<noteq> ''-5''"
    by (simp add: sampleHost_def)
  show ?thesis
    using sample_dates(3) sample_literals(1) l
    by (simp add: formatAsTime_def formatAsTime_as_claimed_def dateText_def)
qed

section \<open>Properties: sorting\<close>

subsection \<open>Stable insertion with an arbitrary comparator\<close>























subsection \<open>The comparator of \<^verbatim>\<open>sortTable\<close>\<close>













subsection \<open>\<^verbatim>\<open>sortTable\<close>\<close>








lemma sample_getProperty:
  "getProperty sampleHost (JObj [(''a'', v)]) ''a'' = Value v"
  "getProperty sampleHost (JObj [(''b'', v)]) ''a'' = Undefined"
  by (simp_all add: getProperty_def sampleHost_def sampleInherited_def)









text \<open>
  Why a column must not mix numbers with other values: numbers are compared with each
  other by value and with a string as strings, so that 2 is before 10, 10 before
  \<^verbatim>\<open>1x\<close> and \<^verbatim>\<open>1x\<close> before 2. On such a column the order is whatever the
  runtime's algorithm makes of the comparisons it happens to ask for.
\<close>

lemma compareRows_mixed_cycle:
  "compareRows sampleHost ''a'' ''asc'' (JObj [(''a'', JNum 2)]) (JObj [(''a'', JNum 10)]) < 0
   \<and> compareRows sampleHost ''a'' ''asc'' (JObj [(''a'', JNum 10)]) (JObj [(''a'', JStr ''1x'')]) < 0
   \<and> compareRows sampleHost ''a'' ''asc'' (JObj [(''a'', JStr ''1x'')]) (JObj [(''a'', JNum 2)]) < 0"
  unfolding compareRows_def compareCells_def sample_getProperty toLowerCase_def
  by code_simp

text \<open>A \<^verbatim>\<open>null\<close> row among others makes the comparator throw.\<close>

lemma sortTable_null_row:
  "JNull \<in> set rows \<Longrightarrow> 2 \<le> length rows
     \<Longrightarrow> sortTable h column direction rows = Inl (nullPropertyError h column)"
  by (auto simp: sortTable_def)

end
